theory Spec2Isabelle
  imports Complex_Main "HOL-Library.AList" "HOL-Library.Multiset"
begin

section \<open>Numbers, time and storage errors\<close>

text \<open>
  A JavaScript \<open>number\<close> is modelled as an exact rational: the arithmetic of the server
  (sums, maxima, products with the pool fractions, one division) is read over the
  rationals, so the IEEE-754 rounding of that arithmetic, NaN and the infinities are
  outside the model. The two roundings of the payout cycle to a whole number of
  millionths, which the last bit of a double can decide, are not computed from the
  rational: the environment of the cycle supplies them.
  \<open>Date.now()\<close> is a count of milliseconds, an integer the environment supplies.
\<close>

type_synonym number = rat

text \<open>
  \<open>x || 0\<close> on an optional number: \<open>undefined\<close> (a missing row, a missing map entry)
  and the falsy number \<open>0\<close> both give \<open>0\<close>.
\<close>

definition or_zero :: "number option \<Rightarrow> number" where
  "or_zero v = (case v of None \<Rightarrow> 0 | Some x \<Rightarrow> (if x = 0 then 0 else x))"

text \<open>
  Every method of the \<open>Database\<close> class wraps SQLite calls in a promise that rejects
  when SQLite reports an error. Whether it does is the environment's choice: each method
  takes a flag \<open>ok\<close>, true when the statements of this call succeed. A failed statement
  writes nothing.
\<close>

datatype db_error = SqliteError

section \<open>The stats store: the Database class\<close>

record PlayerStats =
  wallet :: string
  totalScore :: number
  highScore :: number
  gamesPlayed :: number
  lastPlayed :: int

record LeaderboardEntry =
  e_rank :: nat
  e_wallet :: string
  e_score :: number
  e_gamesPlayed :: number
  e_lastPlayed :: int

record EntryFeeRecord =
  amount :: number
  timestamp :: int
  fee_wallet :: "string option"

record DailyPlayerStats =
  walletDaily :: string
  totalScoreDaily :: number
  highScoreDaily :: number
  gamesPlayedDaily :: number
  lastPlayedDaily :: int

text \<open>
  The three tables, each a list of rows in storage order. \<open>wallet\<close> is the primary key of
  \<open>player_stats\<close> and of \<open>daily_player_stats\<close>; \<open>entry_fees\<close> is keyed by its
  auto-incremented position.
\<close>

record database =
  player_stats :: "PlayerStats list"
  entry_fees :: "EntryFeeRecord list"
  daily_player_stats :: "DailyPlayerStats list"

definition getPlayerStats :: "bool \<Rightarrow> database \<Rightarrow> string \<Rightarrow> db_error + PlayerStats option" where
  "getPlayerStats ok db w =
     (if ok then Inr (find (\<lambda>row. wallet row = w) (player_stats db)) else Inl SqliteError)"

text \<open>
  \<open>INSERT OR REPLACE\<close> on a table with a primary key: the row with the same key, if
  any, is deleted and the new row is stored.
\<close>

definition insert_or_replace :: "('r \<Rightarrow> string) \<Rightarrow> 'r \<Rightarrow> 'r list \<Rightarrow> 'r list" where
  "insert_or_replace key new rows = filter (\<lambda>row. key row \<noteq> key new) rows @ [new]"

definition updatePlayerStats ::
  "bool \<Rightarrow> int \<Rightarrow> database \<Rightarrow> string \<Rightarrow> number \<Rightarrow> db_error + (database \<times> PlayerStats)" where
  "updatePlayerStats ok now db w score =
     (case getPlayerStats ok db w of
        Inl e \<Rightarrow> Inl e
      | Inr currentStats \<Rightarrow>
          (let newTotalScore = or_zero (map_option totalScore currentStats) + score;
               newHighScore = max (or_zero (map_option highScore currentStats)) score;
               newGamesPlayed = or_zero (map_option gamesPlayed currentStats) + 1;
               new = \<lparr>wallet = w, totalScore = newTotalScore, highScore = newHighScore,
                      gamesPlayed = newGamesPlayed, lastPlayed = now\<rparr>
           in if ok
              then Inr (db\<lparr>player_stats := insert_or_replace wallet new (player_stats db)\<rparr>, new)
              else Inl SqliteError))"

datatype score_type = Total | High

definition getLeaderboard ::
  "bool \<Rightarrow> database \<Rightarrow> score_type \<Rightarrow> int \<Rightarrow> db_error + LeaderboardEntry list" where
  "getLeaderboard ok db type limit =
     (let scoreColumn = (case type of Total \<Rightarrow> totalScore | High \<Rightarrow> highScore);
          ordered = sort_key (\<lambda>row. - scoreColumn row)
                      (filter (\<lambda>row. scoreColumn row > 0) (player_stats db));
          rows = (if limit < 0 then ordered else take (nat limit) ordered)
      in if ok
         then Inr (map (\<lambda>(row, index).
                     \<lparr>e_rank = index + 1, e_wallet = wallet row, e_score = scoreColumn row,
                      e_gamesPlayed = gamesPlayed row, e_lastPlayed = lastPlayed row\<rparr>)
                   (zip rows [0..<length rows]))
         else Inl SqliteError)"

definition getTotalPlayers :: "bool \<Rightarrow> database \<Rightarrow> db_error + nat" where
  "getTotalPlayers ok db =
     (if ok then Inr (length (filter (\<lambda>row. gamesPlayed row > 0) (player_stats db)))
      else Inl SqliteError)"

definition recordEntryFee ::
  "bool \<Rightarrow> int \<Rightarrow> database \<Rightarrow> number \<Rightarrow> string option \<Rightarrow> db_error + database" where
  "recordEntryFee ok now db amt w =
     (if ok
      then Inr (db\<lparr>entry_fees := entry_fees db @ [\<lparr>amount = amt, timestamp = now, fee_wallet = w\<rparr>]\<rparr>)
      else Inl SqliteError)"

definition getTotalEntryFeesSince :: "bool \<Rightarrow> database \<Rightarrow> int \<Rightarrow> db_error + number" where
  "getTotalEntryFeesSince ok db cutoff =
     (if ok
      then Inr (or_zero (Some (sum_list (map amount
                  (filter (\<lambda>fee. timestamp fee \<ge> cutoff) (entry_fees db))))))
      else Inl SqliteError)"

definition getDailyPlayerStats ::
  "bool \<Rightarrow> database \<Rightarrow> string \<Rightarrow> db_error + DailyPlayerStats option" where
  "getDailyPlayerStats ok db w =
     (if ok then Inr (find (\<lambda>row. walletDaily row = w) (daily_player_stats db))
      else Inl SqliteError)"

definition updateDailyPlayerStats ::
  "bool \<Rightarrow> int \<Rightarrow> database \<Rightarrow> string \<Rightarrow> number \<Rightarrow> db_error + (database \<times> DailyPlayerStats)" where
  "updateDailyPlayerStats ok now db w score =
     (case getDailyPlayerStats ok db w of
        Inl e \<Rightarrow> Inl e
      | Inr current \<Rightarrow>
          (let newTotal = or_zero (map_option totalScoreDaily current) + score;
               newHigh = max (or_zero (map_option highScoreDaily current)) score;
               newGames = or_zero (map_option gamesPlayedDaily current) + 1;
               new = \<lparr>walletDaily = w, totalScoreDaily = newTotal, highScoreDaily = newHigh,
                      gamesPlayedDaily = newGames, lastPlayedDaily = now\<rparr>
           in if ok
              then Inr (db\<lparr>daily_player_stats :=
                          insert_or_replace walletDaily new (daily_player_stats db)\<rparr>, new)
              else Inl SqliteError))"

text \<open>
  \<open>ORDER BY ... DESC LIMIT ?\<close>: SQLite leaves the order of rows with equal scores open;
  the model keeps them in storage order (a stable sort). A negative \<open>LIMIT\<close> is no limit.
\<close>

definition getDailyLeaderboard ::
  "bool \<Rightarrow> database \<Rightarrow> score_type \<Rightarrow> int \<Rightarrow> db_error + LeaderboardEntry list" where
  "getDailyLeaderboard ok db type limit =
     (let scoreColumn = (case type of Total \<Rightarrow> totalScoreDaily | High \<Rightarrow> highScoreDaily);
          ordered = sort_key (\<lambda>row. - scoreColumn row)
                      (filter (\<lambda>row. scoreColumn row > 0) (daily_player_stats db));
          rows = (if limit < 0 then ordered else take (nat limit) ordered)
      in if ok
         then Inr (map (\<lambda>(row, index).
                     \<lparr>e_rank = index + 1, e_wallet = walletDaily row, e_score = scoreColumn row,
                      e_gamesPlayed = gamesPlayedDaily row, e_lastPlayed = lastPlayedDaily row\<rparr>)
                   (zip rows [0..<length rows]))
         else Inl SqliteError)"

text \<open>
  The score columns are declared \<open>INTEGER\<close>: a number that is whole and lies strictly
  between \<open>-2^63\<close> and \<open>2^63 - 1\<close> is stored as an integer, any other number as a
  floating-point value. \<open>SUM\<close> adds integers exactly for as long as it has met integers
  only, and raises \<open>integer overflow\<close> when that exact sum leaves the 64-bit range; once
  it has met a floating-point value it adds in floating point and does not raise. The rows
  are met in storage order. The sums below are over positive values, so the exact sum
  leaves the range just when the sum of the leading integers exceeds \<open>2^63 - 1\<close>.
\<close>

definition stored_as_integer :: "number \<Rightarrow> bool" where
  "stored_as_integer v = (of_int \<lfloor>v\<rfloor> = v \<and> - (2 ^ 63) < v \<and> v < 2 ^ 63 - 1)"

definition sum_overflows :: "number list \<Rightarrow> bool" where
  "sum_overflows vs = (sum_list (takeWhile stored_as_integer vs) > 2 ^ 63 - 1)"

definition getDailyScoresSum :: "bool \<Rightarrow> database \<Rightarrow> score_type \<Rightarrow> db_error + number" where
  "getDailyScoresSum ok db type =
     (let scoreColumn = (case type of Total \<Rightarrow> totalScoreDaily | High \<Rightarrow> highScoreDaily);
          vs = map scoreColumn (filter (\<lambda>row. scoreColumn row > 0) (daily_player_stats db))
      in if ok \<and> \<not> sum_overflows vs
         then Inr (or_zero (Some (sum_list vs)))
         else Inl SqliteError)"

definition resetDailyStats :: "bool \<Rightarrow> database \<Rightarrow> db_error + database" where
  "resetDailyStats ok db =
     (if ok
      then Inr (db\<lparr>daily_player_stats :=
                  map (\<lambda>row. row\<lparr>totalScoreDaily := 0, highScoreDaily := 0, gamesPlayedDaily := 0\<rparr>)
                      (daily_player_stats db)\<rparr>)
      else Inl SqliteError)"

text \<open>
  A run of score submissions for one wallet, each at its own time: every call of
  \<open>updatePlayerStats\<close> succeeds and hands its database to the next.
\<close>

fun updatePlayerStats_all :: "database \<Rightarrow> string \<Rightarrow> (int \<times> number) list \<Rightarrow> db_error + database" where
  "updatePlayerStats_all db w [] = Inr db"
| "updatePlayerStats_all db w ((now, score) # rest) =
     (case updatePlayerStats True now db w score of
        Inl e \<Rightarrow> Inl e
      | Inr (db', stats) \<Rightarrow> updatePlayerStats_all db' w rest)"

definition empty_db :: database where
  "empty_db = \<lparr>player_stats = [], entry_fees = [], daily_player_stats = []\<rparr>"

section \<open>The server: configuration, sessions, responses\<close>

text \<open>
  The environment variables the handlers read. \<open>ONCHAIN_CONFIGURED\<close> stands for the
  conjunction \<open>ENABLE_ONCHAIN_PAYOUTS && PRIZE_POOL_CONTRACT && PRIVATE_KEY && BASE_RPC_URL\<close>
  that gates the settlement call.
\<close>

record config =
  SANDBOX_MODE :: bool
  ENTRY_FEE_NUM :: number
  CDP_NETWORK :: string
  ONCHAIN_CONFIGURED :: bool

text \<open>
  A field of a request body that is a string when present: \<open>None\<close> is \<open>undefined\<close>.
  The session map is a JavaScript \<open>Map\<close>, which takes \<open>undefined\<close> as a key like any
  other value, so session ids are optional strings throughout.
\<close>

type_synonym field = "string option"

definition truthy :: "field \<Rightarrow> bool" where
  "truthy v = (case v of None \<Rightarrow> False | Some s \<Rightarrow> s \<noteq> [])"

record GameSession =
  s_id :: field
  isPaid :: bool
  createdAt :: int
  paidAt :: "int option"
  s_wallet :: field

text \<open>
  One line of \<open>payouts.log\<close>: a reward (wallet, daily total score, daily high score,
  reward, cycle time), the treasury amount (amount, cycle time), the settled transaction
  (hash, explorer link, receipt status, cycle time) or the settlement error (message,
  cycle time). A reward and the treasury amount are printed by \<open>toFixed(6)\<close>, a decimal
  string with six places; the line keeps the integer number of millionths it shows.
\<close>

datatype payout_log_entry =
    RewardEntry string number number int int
  | TreasuryEntry int int
  | OnchainEndCycle string field "int option" int
  | OnchainEndCycleError string int

text \<open>
  What a payout cycle does to the outside world, in program order: a call of
  \<open>appendPayoutLog\<close>, which hands one line to \<open>fs.appendFile\<close> and returns at once,
  or the contract call \<open>endCycle(winners, rewards)\<close>.
\<close>

datatype effect =
    AppendPayoutLog payout_log_entry
  | EndCycleCall "string list" "int list"

text \<open>
  How the contract call ends, as the environment decides: the transaction is mined
  (\<open>tx.hash\<close>, \<open>receipt?.status\<close>), or \<open>endCycle\<close> or \<open>tx.wait()\<close> throws
  (\<open>err.message\<close>).
\<close>

datatype settlement = TxMined string "int option" | TxThrows string

text \<open>
  The server state. \<open>payouts_log\<close> is what the file \<open>payouts.log\<close> holds: the lines
  whose writes succeeded. \<open>fs.appendFile\<close> is not awaited, so lines land when the file
  system gets to them; the order in which they land is not followed, and the file is a
  multiset of lines.
\<close>

record server =
  sessions :: "field \<rightharpoonup> GameSession"
  db :: database
  recordedFeeSessions :: "field set"
  lastPayoutAt :: int
  nextPayoutAt :: int
  lastTxHash :: field
  lastTxLink :: field
  effects :: "effect list"
  payouts_log :: "payout_log_entry multiset"
  isPayoutRunning :: bool

text \<open>
  The responses: an error (HTTP status and the body's \<open>error\<close> text), and the 200 bodies
  of join (session id), verify-payment (session id, message), submit-score (the updated
  lifetime stats; \<open>sessionExpired\<close> is always true) and run-payout (last and next payout
  time, last transaction hash and link).
\<close>

datatype response =
    ErrorResponse nat string
  | JoinResponse field
  | VerifiedResponse field string
  | ScoreResponse PlayerStats
  | PayoutResponse int int field field

section \<open>Session handlers\<close>

text \<open>
  Each handler is read as one uninterrupted run: it takes the server state and returns the
  new state with the response. The clock reads of one run return the same millisecond
  \<open>now\<close>. The three handlers that open a session record the entry fee once per session
  id; the insert is started without being awaited, and the model lets it complete (or
  fail, by \<open>fee_ok\<close>) before the next request.
\<close>

definition record_fee_once :: "config \<Rightarrow> int \<Rightarrow> bool \<Rightarrow> field \<Rightarrow> server \<Rightarrow> server" where
  "record_fee_once cfg now fee_ok sessionId st =
     (if sessionId \<notin> recordedFeeSessions st
      then (case recordEntryFee fee_ok now (db st) (ENTRY_FEE_NUM cfg) None of
              Inl e \<Rightarrow> st
            | Inr db' \<Rightarrow> st\<lparr>db := db', recordedFeeSessions := insert sessionId (recordedFeeSessions st)\<rparr>)
      else st)"

text \<open>\<open>POST /api/join\<close>, reached once the payment middleware has let the request through.\<close>

definition join :: "config \<Rightarrow> int \<Rightarrow> bool \<Rightarrow> string \<Rightarrow> server \<Rightarrow> server \<times> response" where
  "join cfg now fee_ok randomUUID st =
     (let sessionId = Some randomUUID;
          session = \<lparr>s_id = sessionId, isPaid = True, createdAt = now, paidAt = Some now,
                      s_wallet = None\<rparr>;
          st1 = st\<lparr>sessions := (sessions st)(sessionId \<mapsto> session)\<rparr>
      in (record_fee_once cfg now fee_ok sessionId st1, JoinResponse sessionId))"

text \<open>
  \<open>POST /api/verify-payment\<close>. Both modes look the session up and create it when it is
  missing; outside sandbox mode the hash is checked for its length only. Nothing inside
  the handler's \<open>try\<close> block throws, so its 500 response is never sent.
\<close>

definition verify_payment ::
  "config \<Rightarrow> int \<Rightarrow> bool \<Rightarrow> field \<Rightarrow> field \<Rightarrow> server \<Rightarrow> server \<times> response" where
  "verify_payment cfg now fee_ok txHash sessionId st =
     (if \<not> truthy txHash then (st, ErrorResponse 400 ''Missing transaction hash'')
      else
        let session = (case sessions st sessionId of
                         None \<Rightarrow> \<lparr>s_id = sessionId, isPaid = False, createdAt = now,
                                   paidAt = None, s_wallet = None\<rparr>
                       | Some s \<Rightarrow> s);
            paid = session\<lparr>isPaid := True, paidAt := Some now\<rparr>
        in if SANDBOX_MODE cfg
           then (record_fee_once cfg now fee_ok sessionId
                   (st\<lparr>sessions := (sessions st)(sessionId \<mapsto> paid)\<rparr>),
                 VerifiedResponse sessionId ''Payment verified successfully (SANDBOX MODE)'')
           else if truthy txHash \<and> (case txHash of None \<Rightarrow> False | Some h \<Rightarrow> length h > 10)
           then (record_fee_once cfg now fee_ok sessionId
                   (st\<lparr>sessions := (sessions st)(sessionId \<mapsto> paid)\<rparr>),
                 VerifiedResponse sessionId ''Payment verified successfully'')
           else (st\<lparr>sessions := (sessions st)(sessionId \<mapsto> session)\<rparr>,
                 ErrorResponse 400 ''Invalid transaction hash''))"

text \<open>
  \<open>POST /api/submit-score\<close>. \<open>score\<close> is \<open>None\<close> when the body's \<open>score\<close> is missing or
  is not a number. The lifetime row is written before the daily row is attempted; the
  session is deleted only after both writes.
\<close>

definition submit_score ::
  "int \<Rightarrow> bool \<Rightarrow> bool \<Rightarrow> field \<Rightarrow> field \<Rightarrow> number option \<Rightarrow> server \<Rightarrow> server \<times> response" where
  "submit_score now lifetime_ok daily_ok sessionId wallet_field score st =
     (case (wallet_field, score) of
        (Some w, Some sc) \<Rightarrow>
          if \<not> truthy sessionId \<or> \<not> truthy wallet_field
          then (st, ErrorResponse 400 ''Missing required fields'')
          else (case sessions st sessionId of
                  None \<Rightarrow> (st, ErrorResponse 403 ''Invalid session'')
                | Some session \<Rightarrow>
                    if \<not> isPaid session then (st, ErrorResponse 403 ''Invalid session'')
                    else (case updatePlayerStats lifetime_ok now (db st) w sc of
                            Inl e \<Rightarrow> (st, ErrorResponse 500 ''Score submission failed'')
                          | Inr (db1, updatedStats) \<Rightarrow>
                              (case updateDailyPlayerStats daily_ok now db1 w sc of
                                 Inl e \<Rightarrow> (st\<lparr>db := db1\<rparr>, ErrorResponse 500 ''Score submission failed'')
                               | Inr (db2, daily) \<Rightarrow>
                                   (st\<lparr>db := db2, sessions := (sessions st)(sessionId := None)\<rparr>,
                                    ScoreResponse updatedStats))))
      | _ \<Rightarrow> (st, ErrorResponse 400 ''Missing required fields''))"

section \<open>The payout cycle\<close>

text \<open>
  A JavaScript \<open>Map\<close> is an association list in insertion order: \<open>set\<close> on a key that is
  present replaces its value in place, and appends the pair otherwise (\<open>AList.update\<close>);
  \<open>get\<close> is \<open>map_of\<close>. A \<open>Set\<close> built from an array keeps the first occurrence of each
  element.
\<close>

definition new_Set :: "'a list \<Rightarrow> 'a list" where
  "new_Set xs = foldl (\<lambda>s x. if x \<in> set s then s else s @ [x]) [] xs"

text \<open>The volume shares: the 70% pool split in proportion to the daily totals.\<close>

definition rewardTotalMap_of ::
  "number \<Rightarrow> number \<Rightarrow> LeaderboardEntry list \<Rightarrow> (string \<times> number) list" where
  "rewardTotalMap_of sumTotalScores poolTotal totalEntries =
     (if sumTotalScores > 0 \<and> poolTotal > 0
      then foldl (\<lambda>m e. AList.update (e_wallet e) ((e_score e / sumTotalScores) * poolTotal) m)
             [] totalEntries
      else [])"

text \<open>The peak shares: the 25% pool over the first three entries of the daily high board.\<close>

definition rewardHighMap_of :: "number \<Rightarrow> LeaderboardEntry list \<Rightarrow> (string \<times> number) list" where
  "rewardHighMap_of poolHigh highEntries =
     (if poolHigh > 0 \<and> length highEntries > 0
      then
        let top = take (min 3 (length highEntries)) highEntries
        in if length top = 1
           then AList.update (e_wallet (top ! 0)) poolHigh []
           else if length top = 2
           then AList.update (e_wallet (top ! 1)) (poolHigh * (30 / 100))
                  (AList.update (e_wallet (top ! 0)) (poolHigh * (70 / 100)) [])
           else AList.update (e_wallet (top ! 2)) (poolHigh * (15 / 100))
                  (AList.update (e_wallet (top ! 1)) (poolHigh * (25 / 100))
                    (AList.update (e_wallet (top ! 0)) (poolHigh * (60 / 100)) []))
      else [])"

definition reward_of :: "(string \<times> number) list \<Rightarrow> (string \<times> number) list \<Rightarrow> string \<Rightarrow> number" where
  "reward_of rewardTotalMap rewardHighMap w =
     or_zero (map_of rewardTotalMap w) + or_zero (map_of rewardHighMap w)"

definition entry_score :: "LeaderboardEntry list \<Rightarrow> string \<Rightarrow> number" where
  "entry_score entries w = or_zero (map_option e_score (find (\<lambda>e. e_wallet e = w) entries))"

text \<open>
  What the environment hands one run of the cycle: the time, the outcome of each database
  call, the roundings, the outcome of each journal write, and the outcome of the
  contract call.

  The roundings \<open>BigInt(Math.round(x * 10^6))\<close> (\<open>toUnits\<close>) and \<open>x.toFixed(6)\<close> work on the
  IEEE double the run holds for \<open>x\<close>, and near a tie its last bit decides: at a reward of
  \<open>0.0002625\<close> the first gives 263 and the second prints \<open>0.000262\<close>. The rationals do
  not follow that bit, and two amounts that are equal as rationals can be held as two
  doubles. So the roundings are taken from the environment, one for each place an amount
  is rounded at: \<open>toUnits env w x\<close> and \<open>toFixed6 env w x\<close> are the two roundings, in
  millionths, of the reward of wallet \<open>w\<close>, whose exact value is \<open>x\<close>, and
  \<open>toFixed6_treasury env x\<close> is that of the treasury amount. Nothing is assumed of them.

  \<open>write_ok n\<close> says whether the write started by the \<open>n\<close>-th \<open>appendPayoutLog\<close> call of
  the run succeeds.
\<close>

record cycle_env =
  cycle_now :: int
  fees_ok :: bool
  sum_total_ok :: bool
  sum_high_ok :: bool
  board_total_ok :: bool
  board_high_ok :: bool
  toUnits :: "string \<Rightarrow> number \<Rightarrow> int"
  toFixed6 :: "string \<Rightarrow> number \<Rightarrow> int"
  toFixed6_treasury :: "number \<Rightarrow> int"
  write_ok :: "nat \<Rightarrow> bool"
  settles :: settlement
  reset_ok :: bool

text \<open>
  \<open>appendPayoutLog\<close>: the call is made; the line reaches the file if its write succeeds,
  and a failed write is only printed on the console. The model settles the write at the
  call: what the file holds is read after a run, never in the middle of one.
\<close>

definition appendPayoutLog :: "bool \<Rightarrow> payout_log_entry \<Rightarrow> server \<Rightarrow> server" where
  "appendPayoutLog succeeds entry st =
     st\<lparr>effects := effects st @ [AppendPayoutLog entry],
        payouts_log := (if succeeds then add_mset entry (payouts_log st) else payouts_log st)\<rparr>"

fun appendPayoutLogs :: "(nat \<Rightarrow> bool) \<Rightarrow> nat \<Rightarrow> payout_log_entry list \<Rightarrow> server \<Rightarrow> server" where
  "appendPayoutLogs ok n [] st = st"
| "appendPayoutLogs ok n (entry # entries) st =
     appendPayoutLogs ok (Suc n) entries (appendPayoutLog (ok n) entry st)"

text \<open>
  The lines of the \<open>wallets.forEach\<close> loop and the treasury line after it: one audit line
  per rewarded wallet, then the treasury line.
\<close>

definition audit_lines ::
  "(string \<Rightarrow> number \<Rightarrow> int) \<Rightarrow> (number \<Rightarrow> int) \<Rightarrow> int \<Rightarrow> number \<Rightarrow>
   LeaderboardEntry list \<Rightarrow> LeaderboardEntry list \<Rightarrow>
   (string \<times> number) list \<Rightarrow> (string \<times> number) list \<Rightarrow> string list \<Rightarrow> payout_log_entry list" where
  "audit_lines fixed6 fixed6_treasury now poolTreasury totalEntries highEntries
     rewardTotalMap rewardHighMap wallets =
     map (\<lambda>w. RewardEntry w (entry_score totalEntries w) (entry_score highEntries w)
                 (fixed6 w (reward_of rewardTotalMap rewardHighMap w)) now) wallets
     @ [TreasuryEntry (fixed6_treasury poolTreasury) now]"

definition buildExplorerTxLink :: "config \<Rightarrow> field \<Rightarrow> field" where
  "buildExplorerTxLink cfg txHash =
     (case txHash of
        None \<Rightarrow> None
      | Some h \<Rightarrow>
          if h = [] then None
          else Some ((if CDP_NETWORK cfg = ''base'' then ''https://basescan.org/tx/''
                      else ''https://sepolia.basescan.org/tx/'') @ h))"

text \<open>
  The gated on-chain block: one \<open>endCycle\<close> call inside its own \<open>try\<close>; what it throws is
  caught there and logged. \<open>logged\<close> says whether the write of that last line succeeds.
\<close>

definition settle_onchain ::
  "config \<Rightarrow> int \<Rightarrow> settlement \<Rightarrow> bool \<Rightarrow> string list \<Rightarrow> int list \<Rightarrow> server \<Rightarrow> server" where
  "settle_onchain cfg now outcome logged winnersArray rewardsArray st =
     (if ONCHAIN_CONFIGURED cfg
      then (let called = st\<lparr>effects := effects st @ [EndCycleCall winnersArray rewardsArray]\<rparr>
            in case outcome of
                 TxMined h status \<Rightarrow>
                   (appendPayoutLog logged
                      (OnchainEndCycle h (buildExplorerTxLink cfg (Some h)) status now) called)
                   \<lparr>lastTxHash := Some h, lastTxLink := buildExplorerTxLink cfg (Some h)\<rparr>
               | TxThrows msg \<Rightarrow>
                   appendPayoutLog logged (OnchainEndCycleError msg now) called)
      else st)"

text \<open>
  The five awaited reads at the head of \<open>runPayoutCycle\<close>, in the order of the source.
  No other request is served between them: all five see one store.
\<close>

definition cycle_reads ::
  "cycle_env \<Rightarrow> database \<Rightarrow>
   db_error + (number \<times> number \<times> number \<times> LeaderboardEntry list \<times> LeaderboardEntry list)" where
  "cycle_reads env store =
     (case getTotalEntryFeesSince (fees_ok env) store (cycle_now env - 24 * 60 * 60 * 1000) of
        Inl e \<Rightarrow> Inl e
      | Inr totalPool \<Rightarrow>
     (case getDailyScoresSum (sum_total_ok env) store Total of
        Inl e \<Rightarrow> Inl e
      | Inr sumTotalScores \<Rightarrow>
     (case getDailyScoresSum (sum_high_ok env) store High of
        Inl e \<Rightarrow> Inl e
      | Inr sumHighScores \<Rightarrow>
     (case getDailyLeaderboard (board_total_ok env) store Total 1000 of
        Inl e \<Rightarrow> Inl e
      | Inr totalEntries \<Rightarrow>
     (case getDailyLeaderboard (board_high_ok env) store High 1000 of
        Inl e \<Rightarrow> Inl e
      | Inr highEntries \<Rightarrow>
          Inr (totalPool, sumTotalScores, sumHighScores, totalEntries, highEntries))))))"

text \<open>
  \<open>runPayoutCycle\<close>. A rejected database call leaves the \<open>try\<close> block for the outer
  \<open>catch\<close>, which only prints: what was done before it stays done, and the rest of the
  body, the clock included, is skipped.
\<close>

definition runPayoutCycle :: "config \<Rightarrow> cycle_env \<Rightarrow> server \<Rightarrow> server" where
  "runPayoutCycle cfg env st =
     (case cycle_reads env (db st) of
        Inl e \<Rightarrow> st
      | Inr (totalPool, sumTotalScores, sumHighScores, totalEntries, highEntries) \<Rightarrow>
     (let now = cycle_now env;
          poolTotal = totalPool * (70 / 100);
          poolHigh = totalPool * (25 / 100);
          poolTreasury = totalPool * (5 / 100);
          rewardTotalMap = rewardTotalMap_of sumTotalScores poolTotal totalEntries;
          rewardHighMap = rewardHighMap_of poolHigh highEntries;
          wallets = new_Set (map fst rewardTotalMap @ map fst rewardHighMap);
          winnersArray = wallets;
          rewardsArray = map (\<lambda>w. toUnits env w (reward_of rewardTotalMap rewardHighMap w)) wallets;
          lines = audit_lines (toFixed6 env) (toFixed6_treasury env) now poolTreasury
                    totalEntries highEntries rewardTotalMap rewardHighMap wallets;
          st1 = appendPayoutLogs (write_ok env) 0 lines st;
          st2 = settle_onchain cfg now (settles env) (write_ok env (length lines))
                  winnersArray rewardsArray st1
      in case resetDailyStats (reset_ok env) (db st2) of
           Inl e \<Rightarrow> st2
         | Inr db' \<Rightarrow>
             st2\<lparr>db := db', lastPayoutAt := now, nextPayoutAt := now + 24 * 60 * 60 * 1000\<rparr>))"

text \<open>
  \<open>POST /admin/run-payout\<close>, reached once \<open>requireAdmin\<close> has let the request through,
  read as one uninterrupted run.
\<close>

definition admin_run_payout :: "config \<Rightarrow> cycle_env \<Rightarrow> server \<Rightarrow> server \<times> response" where
  "admin_run_payout cfg env st =
     (if isPayoutRunning st then (st, ErrorResponse 409 ''Payout already running'')
      else
        let st1 = runPayoutCycle cfg env (st\<lparr>isPayoutRunning := True\<rparr>);
            st2 = st1\<lparr>isPayoutRunning := False\<rparr>
        in (st2, PayoutResponse (lastPayoutAt st2) (nextPayoutAt st2) (lastTxHash st2) (lastTxLink st2)))"

section \<open>Requests in sequence\<close>

datatype request =
    JoinRequest int bool string
  | VerifyPaymentRequest int bool field field
  | SubmitScoreRequest int bool bool field field "number option"
  | AdminRunPayoutRequest cycle_env
  | TimerFiresRequest cycle_env

fun handle :: "config \<Rightarrow> request \<Rightarrow> server \<Rightarrow> server \<times> response option" where
  "handle cfg (JoinRequest now fee_ok randomUUID) st =
     map_prod (\<lambda>s. s) Some (join cfg now fee_ok randomUUID st)"
| "handle cfg (VerifyPaymentRequest now fee_ok txHash sessionId) st =
     map_prod (\<lambda>s. s) Some (verify_payment cfg now fee_ok txHash sessionId st)"
| "handle cfg (SubmitScoreRequest now lifetime_ok daily_ok sessionId w score) st =
     map_prod (\<lambda>s. s) Some (submit_score now lifetime_ok daily_ok sessionId w score st)"
| "handle cfg (AdminRunPayoutRequest env) st =
     map_prod (\<lambda>s. s) Some (admin_run_payout cfg env st)"
| "handle cfg (TimerFiresRequest env) st = (runPayoutCycle cfg env st, None)"

fun run_requests :: "config \<Rightarrow> request list \<Rightarrow> server \<Rightarrow> server \<times> response option list" where
  "run_requests cfg [] st = (st, [])"
| "run_requests cfg (r # rs) st =
     (case handle cfg r st of
        (st1, reply) \<Rightarrow> (case run_requests cfg rs st1 of (st2, replies) \<Rightarrow> (st2, reply # replies)))"

text \<open>A request that puts a session under the id \<open>sid\<close> into the registry.\<close>

fun registers :: "field \<Rightarrow> request \<Rightarrow> bool" where
  "registers sid (JoinRequest now fee_ok randomUUID) = (sid = Some randomUUID)"
| "registers sid (VerifyPaymentRequest now fee_ok txHash sessionId) = (sid = sessionId)"
| "registers sid _ = False"

section \<open>Overlapping cycles\<close>

text \<open>
  \<open>runPayoutCycle\<close> is an \<open>async\<close> function that awaits the database and the chain, so
  an invocation is in progress across turns of the event loop. Here only the starts and
  returns of invocations are followed, with the flag \<open>isPayoutRunning\<close>; the body of the
  cycle is left out. \<open>setInterval\<close> calls \<open>runPayoutCycle\<close> directly; the admin handler
  tests and sets the flag around its call.
\<close>

datatype caller = Timer | Admin

datatype trigger = TimerFires | AdminRequest | CycleReturns nat

datatype trigger_outcome = Started | Rejected response | Returned | NoSuchCycle

record scheduler =
  payoutRunning :: bool
  in_progress :: "caller list"

fun trigger_step :: "scheduler \<Rightarrow> trigger \<Rightarrow> scheduler \<times> trigger_outcome" where
  "trigger_step s TimerFires = (s\<lparr>in_progress := in_progress s @ [Timer]\<rparr>, Started)"
| "trigger_step s AdminRequest =
     (if payoutRunning s then (s, Rejected (ErrorResponse 409 ''Payout already running''))
      else (s\<lparr>payoutRunning := True, in_progress := in_progress s @ [Admin]\<rparr>, Started))"
| "trigger_step s (CycleReturns i) =
     (if i < length (in_progress s)
      then (case in_progress s ! i of
              Timer \<Rightarrow>
                (s\<lparr>in_progress := take i (in_progress s) @ drop (Suc i) (in_progress s)\<rparr>, Returned)
            | Admin \<Rightarrow>
                (s\<lparr>payoutRunning := False,
                   in_progress := take i (in_progress s) @ drop (Suc i) (in_progress s)\<rparr>, Returned))
      else (s, NoSuchCycle))"

fun trigger_run :: "scheduler \<Rightarrow> trigger list \<Rightarrow> scheduler \<times> trigger_outcome list" where
  "trigger_run s [] = (s, [])"
| "trigger_run s (t # ts) =
     (case trigger_step s t of
        (s1, out) \<Rightarrow> (case trigger_run s1 ts of (s2, outs) \<Rightarrow> (s2, out # outs)))"

definition idle :: scheduler where
  "idle = \<lparr>payoutRunning = False, in_progress = []\<rparr>"

text \<open>What the flag is meant to keep: at most one cycle in progress, the admin's, with the flag set.\<close>

definition guarded :: "scheduler \<Rightarrow> bool" where
  "guarded s =
     ((in_progress s = [] \<and> \<not> payoutRunning s) \<or> (in_progress s = [Admin] \<and> payoutRunning s))"

section \<open>Starting states\<close>

definition empty_server :: server where
  "empty_server =
     \<lparr>sessions = Map.empty, db = empty_db, recordedFeeSessions = {},
      lastPayoutAt = 0, nextPayoutAt = 24 * 60 * 60 * 1000,
      lastTxHash = None, lastTxLink = None, effects = [], payouts_log = {#},
      isPayoutRunning = False\<rparr>"

definition production :: config where
  "production =
     \<lparr>SANDBOX_MODE = False, ENTRY_FEE_NUM = 1 / 1000, CDP_NETWORK = ''base-sepolia'',
      ONCHAIN_CONFIGURED = True\<rparr>"

section \<open>The daily board in terms of its rows\<close>

text \<open>
  The score column a board is ordered by, and the rows a cycle reads for it: the rows of
  positive score in descending order, cut at the cycle's limit of 1000.
\<close>

definition daily_column :: "score_type \<Rightarrow> DailyPlayerStats \<Rightarrow> number" where
  "daily_column type = (case type of Total \<Rightarrow> totalScoreDaily | High \<Rightarrow> highScoreDaily)"

definition daily_rows :: "database \<Rightarrow> score_type \<Rightarrow> DailyPlayerStats list" where
  "daily_rows store type =
     take 1000 (sort_key (\<lambda>row. - daily_column type row)
       (filter (\<lambda>row. daily_column type row > 0) (daily_player_stats store)))"

section \<open>Scenarios\<close>

text \<open>
  A session opened by \<open>/api/join\<close>, and the state after its score was submitted.
\<close>

definition joined :: server where
  "joined = fst (join production 1000 True ''s1'' empty_server)"

definition consumed :: server where
  "consumed = fst (submit_score 2000 True True (Some ''s1'') (Some ''0xA'') (Some 10) joined)"

text \<open>
  A session that exists and is not paid: \<open>/api/verify-payment\<close> outside sandbox mode
  with a transaction hash of seven characters. The same request with a hash of eighteen
  characters leaves the session paid.
\<close>

definition unpaid :: server where
  "unpaid = fst (verify_payment production 1000 True (Some ''0xshort'') (Some ''s1'') empty_server)"

definition paid_once :: server where
  "paid_once = fst (verify_payment production 1000 True (Some ''0x0123456789abcdef'') (Some ''s1'') empty_server)"

text \<open>
  The scenario of the specification: three fees of 1, daily totals and highs of 10 for
  \<open>0xA\<close> and 20 for \<open>0xB\<close>.
\<close>

definition scenario_db :: database where
  "scenario_db =
     \<lparr>player_stats = [],
      entry_fees = [\<lparr>amount = 1, timestamp = 5000, fee_wallet = None\<rparr>,
                    \<lparr>amount = 1, timestamp = 6000, fee_wallet = None\<rparr>,
                    \<lparr>amount = 1, timestamp = 7000, fee_wallet = None\<rparr>],
      daily_player_stats =
        [\<lparr>walletDaily = ''0xA'', totalScoreDaily = 10, highScoreDaily = 10, gamesPlayedDaily = 1,
          lastPlayedDaily = 5500\<rparr>,
         \<lparr>walletDaily = ''0xB'', totalScoreDaily = 20, highScoreDaily = 20, gamesPlayedDaily = 1,
          lastPlayedDaily = 6500\<rparr>]\<rparr>"

definition scenario_server :: server where
  "scenario_server = empty_server\<lparr>db := scenario_db\<rparr>"

text \<open>
  Rounding to the nearest millionth, halves upwards: what both roundings of the cycle give
  for an amount whose double is far enough from a tie. The cycles of the scenarios round
  with it.
\<close>

definition nearest_millionth :: "number \<Rightarrow> int" where
  "nearest_millionth x = \<lfloor>x * 10 ^ 6 + 1 / 2\<rfloor>"

text \<open>
  A cycle at time 86401000, an hour and a second after the fees of the scenarios were
  paid, in which every database call and every journal write succeeds and the
  transaction \<open>0xfeed\<close> is mined; the same cycle with a contract call that throws; and
  the same cycle with a file system that refuses every write.
\<close>

definition settled_cycle :: cycle_env where
  "settled_cycle =
     \<lparr>cycle_now = 86401000, fees_ok = True, sum_total_ok = True, sum_high_ok = True,
      board_total_ok = True, board_high_ok = True,
      toUnits = (\<lambda>w. nearest_millionth), toFixed6 = (\<lambda>w. nearest_millionth),
      toFixed6_treasury = nearest_millionth, write_ok = (\<lambda>n. True),
      settles = TxMined ''0xfeed'' (Some 1), reset_ok = True\<rparr>"

definition settlement_fails :: cycle_env where
  "settlement_fails = settled_cycle\<lparr>settles := TxThrows ''execution reverted''\<rparr>"

definition writes_fail :: cycle_env where
  "writes_fail = settled_cycle\<lparr>write_ok := (\<lambda>n. False)\<rparr>"

text \<open>
  Four players with daily highs 10, 40, 30 and 20.
\<close>

definition four_players_db :: database where
  "four_players_db =
     \<lparr>player_stats = [],
      entry_fees = [\<lparr>amount = 400, timestamp = 5000, fee_wallet = None\<rparr>],
      daily_player_stats =
        [\<lparr>walletDaily = ''0xA'', totalScoreDaily = 10, highScoreDaily = 10, gamesPlayedDaily = 1,
          lastPlayedDaily = 5100\<rparr>,
         \<lparr>walletDaily = ''0xB'', totalScoreDaily = 40, highScoreDaily = 40, gamesPlayedDaily = 1,
          lastPlayedDaily = 5200\<rparr>,
         \<lparr>walletDaily = ''0xC'', totalScoreDaily = 50, highScoreDaily = 30, gamesPlayedDaily = 2,
          lastPlayedDaily = 5300\<rparr>,
         \<lparr>walletDaily = ''0xD'', totalScoreDaily = 20, highScoreDaily = 20, gamesPlayedDaily = 1,
          lastPlayedDaily = 5400\<rparr>]\<rparr>"

definition four_players_server :: server where
  "four_players_server = empty_server\<lparr>db := four_players_db\<rparr>"

text \<open>
  Two players whose daily scores are \<open>2^62\<close> each, and three fees of 1.
\<close>

definition overflow_db :: database where
  "overflow_db =
     \<lparr>player_stats = [],
      entry_fees = [\<lparr>amount = 1, timestamp = 5000, fee_wallet = None\<rparr>,
                    \<lparr>amount = 1, timestamp = 6000, fee_wallet = None\<rparr>,
                    \<lparr>amount = 1, timestamp = 7000, fee_wallet = None\<rparr>],
      daily_player_stats =
        [\<lparr>walletDaily = ''0xA'', totalScoreDaily = 4611686018427387904,
          highScoreDaily = 4611686018427387904, gamesPlayedDaily = 1, lastPlayedDaily = 5500\<rparr>,
         \<lparr>walletDaily = ''0xB'', totalScoreDaily = 4611686018427387904,
          highScoreDaily = 4611686018427387904, gamesPlayedDaily = 1, lastPlayedDaily = 6500\<rparr>]\<rparr>"

definition overflow_server :: server where
  "overflow_server = empty_server\<lparr>db := overflow_db\<rparr>"

text \<open>
  A day with \<open>n\<close> players of one point each, whose wallets are \<open>w\<close>, \<open>ww\<close>,
  \<open>www\<close> and so on, and a store with 1001 of them and a fee pool of 10010.
\<close>

definition crowd :: "nat \<Rightarrow> DailyPlayerStats list" where
  "crowd n =
     map (\<lambda>i. \<lparr>walletDaily = replicate (Suc i) (CHR ''w''), totalScoreDaily = 1, highScoreDaily = 1,
               gamesPlayedDaily = 1, lastPlayedDaily = 0\<rparr>) [0..<n]"

definition crowded_db :: database where
  "crowded_db =
     \<lparr>player_stats = [],
      entry_fees = [\<lparr>amount = 10010, timestamp = 5000, fee_wallet = None\<rparr>],
      daily_player_stats = crowd 1001\<rparr>"

definition crowded_server :: server where
  "crowded_server = empty_server\<lparr>db := crowded_db\<rparr>"

section \<open>Lifetime statistics\<close>

lemma or_zero_simps: "or_zero None = 0" "or_zero (Some x) = x"
  by (simp_all add: or_zero_def)

lemma find_insert_or_replace_same:
  "key new = k \<Longrightarrow> find (\<lambda>row. key row = k) (insert_or_replace key new rows) = Some new"
  by (induction rows) (auto simp: insert_or_replace_def)

lemma find_insert_or_replace_other:
  "key new \<noteq> k \<Longrightarrow>
   find (\<lambda>row. key row = k) (insert_or_replace key new rows) = find (\<lambda>row. key row = k) rows"
  by (induction rows) (auto simp: insert_or_replace_def)

text \<open>A submission for one wallet leaves every other wallet's lifetime row as it was.\<close>

lemma updatePlayerStats_other_wallet:
  assumes "updatePlayerStats ok now store w score = Inr (store', row)" and "w' \<noteq> w"
  shows "getPlayerStats True store' w' = getPlayerStats True store w'"
  using assms
  by (auto simp: updatePlayerStats_def getPlayerStats_def Let_def find_insert_or_replace_other
      split: if_splits)

lemma updatePlayerStats_ok:
  "updatePlayerStats True now store w score =
     (let cur = find (\<lambda>row. wallet row = w) (player_stats store);
          new = \<lparr>wallet = w, totalScore = or_zero (map_option totalScore cur) + score,
                 highScore = max (or_zero (map_option highScore cur)) score,
                 gamesPlayed = or_zero (map_option gamesPlayed cur) + 1, lastPlayed = now\<rparr>
      in Inr (store\<lparr>player_stats := insert_or_replace wallet new (player_stats store)\<rparr>, new))"
  by (simp add: updatePlayerStats_def getPlayerStats_def Let_def)

text \<open>
  The row of \<open>w\<close> after a run of submissions, from any database: the sums start at the
  values of the row found (or at zero), and the other two tables are not touched.
\<close>

lemma updatePlayerStats_all_row:
  "\<exists>store'. updatePlayerStats_all store w subs = Inr store' \<and>
     entry_fees store' = entry_fees store \<and> daily_player_stats store' = daily_player_stats store \<and>
     find (\<lambda>row. wallet row = w) (player_stats store') =
       (if subs = [] then find (\<lambda>row. wallet row = w) (player_stats store)
        else Some \<lparr>wallet = w,
           totalScore = or_zero (map_option totalScore (find (\<lambda>row. wallet row = w) (player_stats store)))
                          + sum_list (map snd subs),
           highScore = Max (insert (or_zero (map_option highScore (find (\<lambda>row. wallet row = w) (player_stats store))))
                          (set (map snd subs))),
           gamesPlayed = or_zero (map_option gamesPlayed (find (\<lambda>row. wallet row = w) (player_stats store)))
                          + of_nat (length subs),
           lastPlayed = fst (last subs)\<rparr>)"
proof (induction subs arbitrary: store)
  case Nil
  show ?case by simp
next
  case (Cons sub rest)
  obtain now score where sub: "sub = (now, score)" by (cases sub)
  define cur where "cur = find (\<lambda>row. wallet row = w) (player_stats store)"
  define new where "new = \<lparr>wallet = w, totalScore = or_zero (map_option totalScore cur) + score,
                 highScore = max (or_zero (map_option highScore cur)) score,
                 gamesPlayed = or_zero (map_option gamesPlayed cur) + 1, lastPlayed = now\<rparr>"
  define store1 where "store1 = store\<lparr>player_stats := insert_or_replace wallet new (player_stats store)\<rparr>"
  have step: "updatePlayerStats True now store w score = Inr (store1, new)"
    by (simp add: updatePlayerStats_ok cur_def new_def store1_def Let_def)
  have row1: "find (\<lambda>row. wallet row = w) (player_stats store1) = Some new"
    by (simp add: store1_def find_insert_or_replace_same new_def)
  from Cons.IH [of store1] obtain store' where
    run: "updatePlayerStats_all store1 w rest = Inr store'" and
    fees: "entry_fees store' = entry_fees store1" and
    daily: "daily_player_stats store' = daily_player_stats store1" and
    row: "find (\<lambda>row. wallet row = w) (player_stats store') =
       (if rest = [] then find (\<lambda>row. wallet row = w) (player_stats store1)
        else Some \<lparr>wallet = w,
           totalScore = or_zero (map_option totalScore (find (\<lambda>row. wallet row = w) (player_stats store1)))
                          + sum_list (map snd rest),
           highScore = Max (insert (or_zero (map_option highScore (find (\<lambda>row. wallet row = w) (player_stats store1))))
                          (set (map snd rest))),
           gamesPlayed = or_zero (map_option gamesPlayed (find (\<lambda>row. wallet row = w) (player_stats store1)))
                          + of_nat (length rest),
           lastPlayed = fst (last rest)\<rparr>)"
    by blast
  have all: "updatePlayerStats_all store w (sub # rest) = Inr store'"
    by (simp add: sub step run)
  have maxeq: "Max (insert (max h score) (set (map snd rest))) =
               Max (insert h (set (map snd (sub # rest))))" for h
  proof -
    have "Max (insert h (insert score (set (map snd rest)))) =
          Max (insert (max h score) (set (map snd rest)))"
      by (cases "set (map snd rest) = {}") (simp_all add: max.assoc)
    then show ?thesis by (simp add: sub)
  qed
  have "find (\<lambda>row. wallet row = w) (player_stats store') =
        Some \<lparr>wallet = w,
           totalScore = or_zero (map_option totalScore cur) + sum_list (map snd (sub # rest)),
           highScore = Max (insert (or_zero (map_option highScore cur)) (set (map snd (sub # rest)))),
           gamesPlayed = or_zero (map_option gamesPlayed cur) + of_nat (length (sub # rest)),
           lastPlayed = fst (last (sub # rest))\<rparr>"
  proof (cases "rest = []")
    case True
    then show ?thesis using row row1 by (simp add: new_def sub max.commute)
  next
    case False
    then show ?thesis using row row1 maxeq [of "or_zero (map_option highScore cur)"]
      by (simp add: new_def or_zero_simps sub algebra_simps)
  qed
  then show ?case using all fees daily by (simp add: cur_def store1_def)
qed

text \<open>
  Claim C4, as amended. For every wallet with no lifetime row and every run of
  \<open>N \<ge> 1\<close> successful score submissions with scores \<open>s1..sN\<close>, \<open>updatePlayerStats\<close>
  leaves the lifetime row with \<open>totalScore\<close> the sum of the scores, \<open>gamesPlayed = N\<close>,
  and \<open>highScore\<close> the larger of \<open>0\<close> and the maximum of the scores: the running maximum
  starts from the \<open>0\<close> that stands for the missing row.
\<close>

theorem lifetime_stats_after_submissions:
  assumes "getPlayerStats True store w = Inr None" and "subs \<noteq> []"
  shows "\<exists>store'. updatePlayerStats_all store w subs = Inr store' \<and>
           getPlayerStats True store' w =
             Inr (Some \<lparr>wallet = w,
                        totalScore = sum_list (map snd subs),
                        highScore = max 0 (Max (set (map snd subs))),
                        gamesPlayed = of_nat (length subs),
                        lastPlayed = fst (last subs)\<rparr>)"
proof -
  from assms(1) have none: "find (\<lambda>row. wallet row = w) (player_stats store) = None"
    by (simp add: getPlayerStats_def)
  from updatePlayerStats_all_row [of store w subs] obtain store' where
    run: "updatePlayerStats_all store w subs = Inr store'" and
    row: "find (\<lambda>row. wallet row = w) (player_stats store') =
       (if subs = [] then find (\<lambda>row. wallet row = w) (player_stats store)
        else Some \<lparr>wallet = w,
           totalScore = or_zero (map_option totalScore (find (\<lambda>row. wallet row = w) (player_stats store)))
                          + sum_list (map snd subs),
           highScore = Max (insert (or_zero (map_option highScore (find (\<lambda>row. wallet row = w) (player_stats store))))
                          (set (map snd subs))),
           gamesPlayed = or_zero (map_option gamesPlayed (find (\<lambda>row. wallet row = w) (player_stats store)))
                          + of_nat (length subs),
           lastPlayed = fst (last subs)\<rparr>)"
    by blast
  have "Max (insert 0 (set (map snd subs))) = max 0 (Max (set (map snd subs)))"
    using assms(2) by simp
  then have "getPlayerStats True store' w =
             Inr (Some \<lparr>wallet = w,
                        totalScore = sum_list (map snd subs),
                        highScore = max 0 (Max (set (map snd subs))),
                        gamesPlayed = of_nat (length subs),
                        lastPlayed = fst (last subs)\<rparr>)"
    using row none assms(2) by (simp add: getPlayerStats_def or_zero_simps)
  with run show ?thesis by blast
qed

text \<open>The amended claim at three submissions of 10, 30 and 20 points.\<close>

theorem lifetime_stats_after_submissions_witness:
  "getPlayerStats True empty_db ''0xA'' = Inr None \<and>
   (\<exists>store'. updatePlayerStats_all empty_db ''0xA'' [(1000, 10), (2000, 30), (3000, 20)] = Inr store' \<and>
      getPlayerStats True store' ''0xA'' =
        Inr (Some \<lparr>wallet = ''0xA'', totalScore = 60, highScore = 30, gamesPlayed = 3,
                   lastPlayed = 3000\<rparr>))"
proof -
  have h: "getPlayerStats True empty_db ''0xA'' = Inr None"
    by (simp add: getPlayerStats_def empty_db_def)
  show ?thesis
    using h lifetime_stats_after_submissions [OF h, of "[(1000, 10), (2000, 30), (3000, 20)]"]
    by simp
qed

text \<open>
  Claim C4 as stated fails where every score is negative: one submission of \<open>-5\<close> points
  on an empty store leaves \<open>highScore = 0\<close>, while the maximum of the scores is \<open>-5\<close>.
\<close>

theorem high_score_of_negative_scores_counterexample:
  "updatePlayerStats_all empty_db ''0xA'' [(1000, - 5)] =
     Inr (empty_db\<lparr>player_stats :=
            [\<lparr>wallet = ''0xA'', totalScore = - 5, highScore = 0, gamesPlayed = 1, lastPlayed = 1000\<rparr>]\<rparr>) \<and>
   getPlayerStats True
     (empty_db\<lparr>player_stats :=
            [\<lparr>wallet = ''0xA'', totalScore = - 5, highScore = 0, gamesPlayed = 1, lastPlayed = 1000\<rparr>]\<rparr>)
     ''0xA'' =
     Inr (Some \<lparr>wallet = ''0xA'', totalScore = - 5, highScore = 0, gamesPlayed = 1, lastPlayed = 1000\<rparr>) \<and>
   Max (set (map snd [(1000 :: int, - 5 :: number)])) = - 5 \<and>
   (0 :: number) \<noteq> - 5"
  by (simp add: updatePlayerStats_def getPlayerStats_def empty_db_def insert_or_replace_def
      or_zero_def Let_def)

section \<open>The daily reset\<close>

text \<open>
  Claim C7, as amended. \<open>resetDailyStats\<close> sets the total score, the high score and the
  games played of every daily row to zero, keeps each row's wallet and last-played time,
  and leaves the lifetime table and the fee journal exactly as they were. When SQLite
  reports an error the call rejects.
\<close>

theorem resetDailyStats_zeroes_scores_keeps_lifetime:
  "(\<exists>store'. resetDailyStats True store = Inr store' \<and>
      player_stats store' = player_stats store \<and>
      entry_fees store' = entry_fees store \<and>
      map walletDaily (daily_player_stats store') = map walletDaily (daily_player_stats store) \<and>
      map lastPlayedDaily (daily_player_stats store') = map lastPlayedDaily (daily_player_stats store) \<and>
      map totalScoreDaily (daily_player_stats store') = replicate (length (daily_player_stats store)) 0 \<and>
      map highScoreDaily (daily_player_stats store') = replicate (length (daily_player_stats store)) 0 \<and>
      map gamesPlayedDaily (daily_player_stats store') = replicate (length (daily_player_stats store)) 0) \<and>
   resetDailyStats False store = Inl SqliteError"
proof -
  have z: "map (\<lambda>x. 0 :: number) rows = replicate (length rows) 0" for rows :: "DailyPlayerStats list"
    by (induction rows) simp_all
  show ?thesis
    by (simp add: resetDailyStats_def comp_def z)
qed

text \<open>
  Claim C7 as stated fails on the last-played field: the reset of a row last played at
  \<open>1700000000000\<close> keeps that time.
\<close>

theorem resetDailyStats_keeps_last_played_counterexample:
  "resetDailyStats True
     (empty_db\<lparr>daily_player_stats :=
        [\<lparr>walletDaily = ''0xA'', totalScoreDaily = 30, highScoreDaily = 20, gamesPlayedDaily = 2,
          lastPlayedDaily = 1700000000000\<rparr>]\<rparr>) =
   Inr (empty_db\<lparr>daily_player_stats :=
        [\<lparr>walletDaily = ''0xA'', totalScoreDaily = 0, highScoreDaily = 0, gamesPlayedDaily = 0,
          lastPlayedDaily = 1700000000000\<rparr>]\<rparr>) \<and>
   (1700000000000 :: int) \<noteq> 0"
  by (simp add: resetDailyStats_def empty_db_def)

section \<open>Sessions\<close>

lemma sessions_record_fee_once [simp]:
  "sessions (record_fee_once cfg now fee_ok sid st) = sessions st"
  by (simp add: record_fee_once_def recordEntryFee_def)

lemma sessions_appendPayoutLog [simp]:
  "sessions (appendPayoutLog succeeds entry st) = sessions st"
  by (simp add: appendPayoutLog_def)

lemma sessions_appendPayoutLogs [simp]:
  "sessions (appendPayoutLogs ok n entries st) = sessions st"
  by (induction entries arbitrary: n st) simp_all

lemma sessions_settle_onchain [simp]:
  "sessions (settle_onchain cfg now outcome logged ws rs st) = sessions st"
  by (simp add: settle_onchain_def Let_def split: settlement.splits)

lemma sessions_runPayoutCycle [simp]:
  "sessions (runPayoutCycle cfg env st) = sessions st"
  by (simp add: runPayoutCycle_def Let_def resetDailyStats_def split: sum.splits prod.splits)

lemma submit_score_absent:
  "sessions st sid = None \<Longrightarrow>
   submit_score now lifetime_ok daily_ok sid w sc st =
     (st, if truthy sid \<and> truthy w \<and> sc \<noteq> None then ErrorResponse 403 ''Invalid session''
          else ErrorResponse 400 ''Missing required fields'')"
  by (auto simp: submit_score_def truthy_def split: option.splits)

lemma submit_score_keeps_absent:
  "sessions st sid = None \<Longrightarrow>
   sessions (fst (submit_score now lifetime_ok daily_ok sessionId w sc st)) sid = None"
  by (auto simp: submit_score_def split: option.splits sum.splits prod.splits)

lemma handle_keeps_absent:
  "sessions st sid = None \<Longrightarrow> \<not> registers sid r \<Longrightarrow> sessions (fst (handle cfg r st)) sid = None"
proof (cases r)
  case (JoinRequest now fee_ok uuid)
  then show "sessions st sid = None \<Longrightarrow> \<not> registers sid r \<Longrightarrow> ?thesis"
    by (auto simp: join_def Let_def)
next
  case (VerifyPaymentRequest now fee_ok txHash sessionId)
  then show "sessions st sid = None \<Longrightarrow> \<not> registers sid r \<Longrightarrow> ?thesis"
    by (auto simp: verify_payment_def Let_def)
next
  case (SubmitScoreRequest now lifetime_ok daily_ok sessionId w score)
  then show "sessions st sid = None \<Longrightarrow> \<not> registers sid r \<Longrightarrow> ?thesis"
    by (simp add: submit_score_keeps_absent)
next
  case (AdminRunPayoutRequest env)
  then show "sessions st sid = None \<Longrightarrow> \<not> registers sid r \<Longrightarrow> ?thesis"
    by (simp add: admin_run_payout_def Let_def)
next
  case (TimerFiresRequest env)
  then show "sessions st sid = None \<Longrightarrow> \<not> registers sid r \<Longrightarrow> ?thesis"
    by simp
qed

lemma run_requests_keeps_absent:
  "sessions st sid = None \<Longrightarrow> \<forall>r \<in> set rs. \<not> registers sid r \<Longrightarrow>
   sessions (fst (run_requests cfg rs st)) sid = None"
proof (induction rs arbitrary: st)
  case Nil
  then show ?case by simp
next
  case (Cons r rs)
  obtain st1 reply where h: "handle cfg r st = (st1, reply)" by (cases "handle cfg r st")
  have "sessions st1 sid = None"
    using handle_keeps_absent [of st sid r cfg] Cons.prems h by simp
  then have "sessions (fst (run_requests cfg rs st1)) sid = None"
    using Cons.IH Cons.prems by simp
  then show ?case by (cases "run_requests cfg rs st1") (simp add: h)
qed

lemma submit_score_success_removes:
  "submit_score now lifetime_ok daily_ok sid w sc st = (st1, ScoreResponse stats) \<Longrightarrow>
   sessions st1 sid = None"
  by (auto simp: submit_score_def split: option.splits sum.splits prod.splits if_splits)

lemmas eval_defs = join_def submit_score_def verify_payment_def record_fee_once_def recordEntryFee_def
  updatePlayerStats_def updateDailyPlayerStats_def getPlayerStats_def getDailyPlayerStats_def
  insert_or_replace_def or_zero_def truthy_def empty_server_def empty_db_def production_def Let_def

text \<open>
  Claim C1, as amended. A successful score submission removes the session from the
  registry. From then on, for as long as no verify-payment request names that id and no
  join draws it again, every submit-score call with the same id is refused (403
  \<open>Invalid session\<close>, or 400 when the body lacks the wallet or the score) and leaves
  the whole server state, the stats store included, as it was.
\<close>

theorem consumed_session_stays_consumed:
  assumes "submit_score now lifetime_ok daily_ok sid w sc st = (st1, ScoreResponse stats)"
    and "\<forall>r \<in> set rs. \<not> registers sid r"
    and "run_requests cfg rs st1 = (st2, replies)"
  shows "sessions st1 sid = None \<and>
         submit_score now' lifetime_ok' daily_ok' sid w' sc' st2 =
           (st2, if truthy w' \<and> sc' \<noteq> None then ErrorResponse 403 ''Invalid session''
                 else ErrorResponse 400 ''Missing required fields'')"
proof -
  have gone: "sessions st1 sid = None"
    using assms(1) by (rule submit_score_success_removes)
  have "sessions (fst (run_requests cfg rs st1)) sid = None"
    using gone assms(2) by (rule run_requests_keeps_absent)
  then have absent: "sessions st2 sid = None" by (simp add: assms(3))
  have "truthy sid"
    using assms(1) by (auto simp: submit_score_def split: option.splits if_splits)
  with absent gone show ?thesis by (simp add: submit_score_absent)
qed

text \<open>
  The amended claim at the session \<open>s1\<close>: its score is accepted once, a second
  submission is refused, and so is a third.
\<close>

theorem consumed_session_stays_consumed_witness:
  "snd (submit_score 2000 True True (Some ''s1'') (Some ''0xA'') (Some 10) joined) =
     ScoreResponse \<lparr>wallet = ''0xA'', totalScore = 10, highScore = 10, gamesPlayed = 1,
                    lastPlayed = 2000\<rparr> \<and>
   sessions consumed (Some ''s1'') = None \<and>
   submit_score 4000 True True (Some ''s1'') (Some ''0xA'') (Some 99)
     (fst (run_requests production
        [SubmitScoreRequest 3000 True True (Some ''s1'') (Some ''0xA'') (Some 50)] consumed)) =
     (fst (run_requests production
        [SubmitScoreRequest 3000 True True (Some ''s1'') (Some ''0xA'') (Some 50)] consumed),
      ErrorResponse 403 ''Invalid session'')"
proof -
  let ?rs = "[SubmitScoreRequest 3000 True True (Some ''s1'') (Some ''0xA'') (Some 50)]"
  let ?stats = "\<lparr>wallet = ''0xA'', totalScore = 10, highScore = 10, gamesPlayed = 1,
                    lastPlayed = 2000\<rparr>"
  have r: "snd (submit_score 2000 True True (Some ''s1'') (Some ''0xA'') (Some 10) joined) =
           ScoreResponse ?stats"
    by (simp add: joined_def eval_defs)
  have h1: "submit_score 2000 True True (Some ''s1'') (Some ''0xA'') (Some 10) joined =
            (consumed, ScoreResponse ?stats)"
    using r by (simp add: consumed_def prod_eq_iff)
  have h2: "\<forall>r \<in> set ?rs. \<not> registers (Some ''s1'') r" by simp
  have h3: "run_requests production ?rs consumed =
            (fst (run_requests production ?rs consumed), snd (run_requests production ?rs consumed))"
    by simp
  show ?thesis
    using r consumed_session_stays_consumed [OF h1 h2 h3, of 4000 True True "Some ''0xA''" "Some 99"]
    by (simp add: truthy_def)
qed

text \<open>
  Claim C1 as stated fails: \<open>/api/verify-payment\<close> registers a session under any id it
  is given, used before or not, so after join, submit, verify-payment and submit under the
  one id \<open>s1\<close> both submissions have succeeded and both have updated the stats.
\<close>

theorem second_consume_after_reverify_counterexample:
  "snd (run_requests production
     [JoinRequest 1000 True ''s1'',
      SubmitScoreRequest 2000 True True (Some ''s1'') (Some ''0xA'') (Some 10),
      VerifyPaymentRequest 3000 True (Some ''0x0123456789abcdef'') (Some ''s1''),
      SubmitScoreRequest 4000 True True (Some ''s1'') (Some ''0xA'') (Some 10)]
     empty_server) =
   [Some (JoinResponse (Some ''s1'')),
    Some (ScoreResponse \<lparr>wallet = ''0xA'', totalScore = 10, highScore = 10, gamesPlayed = 1,
                          lastPlayed = 2000\<rparr>),
    Some (VerifiedResponse (Some ''s1'') ''Payment verified successfully''),
    Some (ScoreResponse \<lparr>wallet = ''0xA'', totalScore = 20, highScore = 10, gamesPlayed = 2,
                          lastPlayed = 4000\<rparr>)]"
  by (simp add: eval_defs)

text \<open>
  Claim C2, as amended. A submit-score call on a session that exists but is not paid is
  refused with 403 \<open>Invalid session\<close>, the response an absent session gets (400 when
  the body lacks a field), and leaves the whole server state as it was: no lifetime row,
  no daily row and no session changes.
\<close>

theorem submit_score_unpaid_session:
  assumes "sessions st sessionId = Some session" and "\<not> isPaid session"
  shows "submit_score now lifetime_ok daily_ok sessionId w sc st =
           (st, if truthy sessionId \<and> truthy w \<and> sc \<noteq> None
                then ErrorResponse 403 ''Invalid session''
                else ErrorResponse 400 ''Missing required fields'')"
  using assms by (auto simp: submit_score_def truthy_def split: option.splits)

text \<open>
  The amended claim at the unpaid session \<open>s1\<close>.
\<close>

theorem submit_score_unpaid_session_witness:
  "sessions unpaid (Some ''s1'') =
     Some \<lparr>s_id = Some ''s1'', isPaid = False, createdAt = 1000, paidAt = None, s_wallet = None\<rparr> \<and>
   submit_score 2000 True True (Some ''s1'') (Some ''0xA'') (Some 10) unpaid =
     (unpaid, ErrorResponse 403 ''Invalid session'')"
proof -
  let ?s = "\<lparr>s_id = Some ''s1'', isPaid = False, createdAt = 1000, paidAt = None, s_wallet = None\<rparr>"
  have h1: "sessions unpaid (Some ''s1'') = Some ?s"
    by (simp add: unpaid_def eval_defs)
  have h2: "\<not> isPaid ?s" by simp
  show ?thesis
    using h1 submit_score_unpaid_session [OF h1 h2, of 2000 True True "Some ''0xA''" "Some 10"]
    by (simp add: truthy_def)
qed

text \<open>
  Claim C2 as stated fails on the error code: the same request gets the same response,
  403 \<open>Invalid session\<close>, whether the session is unpaid or absent.
\<close>

theorem unpaid_and_absent_same_error_counterexample:
  "map_option isPaid (sessions unpaid (Some ''s1'')) = Some False \<and>
   sessions empty_server (Some ''s1'') = None \<and>
   snd (submit_score 2000 True True (Some ''s1'') (Some ''0xA'') (Some 10) unpaid) =
     ErrorResponse 403 ''Invalid session'' \<and>
   snd (submit_score 2000 True True (Some ''s1'') (Some ''0xA'') (Some 10) empty_server) =
     ErrorResponse 403 ''Invalid session''"
  by (simp add: unpaid_def eval_defs)

text \<open>
  Claim C3, as amended. \<open>/api/verify-payment\<close> with a non-empty transaction hash on an
  id unknown to the registry creates a session under that id: paid, with the current time
  as its paid time, when the hash is accepted (sandbox mode, or more than 10 characters),
  and unpaid with a 400 response otherwise. On a session that is already paid, an accepted
  hash keeps it paid and overwrites its paid time with the current time; a rejected hash
  leaves it as it was. No other session changes.
\<close>

theorem verify_payment_unknown_or_paid:
  assumes "h \<noteq> []"
  shows "(sessions st sessionId = None \<longrightarrow>
            sessions (fst (verify_payment cfg now fee_ok (Some h) sessionId st)) sessionId =
              Some \<lparr>s_id = sessionId, isPaid = (SANDBOX_MODE cfg \<or> length h > 10), createdAt = now,
                     paidAt = (if SANDBOX_MODE cfg \<or> length h > 10 then Some now else None),
                     s_wallet = None\<rparr>) \<and>
         (\<forall>session. sessions st sessionId = Some session \<and> isPaid session \<longrightarrow>
            sessions (fst (verify_payment cfg now fee_ok (Some h) sessionId st)) sessionId =
              Some (if SANDBOX_MODE cfg \<or> length h > 10 then session\<lparr>paidAt := Some now\<rparr>
                    else session)) \<and>
         snd (verify_payment cfg now fee_ok (Some h) sessionId st) =
           (if SANDBOX_MODE cfg then VerifiedResponse sessionId ''Payment verified successfully (SANDBOX MODE)''
            else if length h > 10 then VerifiedResponse sessionId ''Payment verified successfully''
            else ErrorResponse 400 ''Invalid transaction hash'') \<and>
         (\<forall>other. other \<noteq> sessionId \<longrightarrow>
            sessions (fst (verify_payment cfg now fee_ok (Some h) sessionId st)) other =
              sessions st other)"
  using assms by (auto simp: verify_payment_def truthy_def Let_def)

text \<open>
  The amended claim at the id \<open>s1\<close>: unknown at time 1000, verified again at time 5000.
\<close>

theorem verify_payment_unknown_or_paid_witness:
  "''0x0123456789abcdef'' \<noteq> [] \<and>
   sessions empty_server (Some ''s1'') = None \<and>
   sessions paid_once (Some ''s1'') =
     Some \<lparr>s_id = Some ''s1'', isPaid = True, createdAt = 1000, paidAt = Some 1000, s_wallet = None\<rparr> \<and>
   sessions (fst (verify_payment production 5000 True (Some ''0x0123456789abcdef'') (Some ''s1'') paid_once))
     (Some ''s1'') =
     Some \<lparr>s_id = Some ''s1'', isPaid = True, createdAt = 1000, paidAt = Some 5000, s_wallet = None\<rparr> \<and>
   snd (verify_payment production 5000 True (Some ''0x0123456789abcdef'') (Some ''s1'') paid_once) =
     VerifiedResponse (Some ''s1'') ''Payment verified successfully''"
proof -
  have h: "''0x0123456789abcdef'' \<noteq> []" by simp
  have e: "sessions empty_server (Some ''s1'') = None" by (simp add: empty_server_def)
  have p: "sessions paid_once (Some ''s1'') =
     Some \<lparr>s_id = Some ''s1'', isPaid = True, createdAt = 1000, paidAt = Some 1000, s_wallet = None\<rparr>"
    using e verify_payment_unknown_or_paid [OF h, where st = empty_server and sessionId = "Some ''s1''"
        and cfg = production and now = 1000 and fee_ok = True]
    by (simp add: paid_once_def production_def)
  show ?thesis
    using e p verify_payment_unknown_or_paid [OF h, where st = paid_once and sessionId = "Some ''s1''"
        and cfg = production and now = 5000 and fee_ok = True]
    by (simp add: production_def)
qed

text \<open>
  Claim C3 as stated fails on both counts: on the unknown id \<open>s1\<close> the call succeeds
  and creates the session, and on the session paid at time 1000 a second call moves the
  paid time to 5000.
\<close>

theorem verify_payment_creates_and_restamps_counterexample:
  "sessions empty_server (Some ''s1'') = None \<and>
   snd (verify_payment production 1000 True (Some ''0x0123456789abcdef'') (Some ''s1'') empty_server) =
     VerifiedResponse (Some ''s1'') ''Payment verified successfully'' \<and>
   sessions paid_once (Some ''s1'') =
     Some \<lparr>s_id = Some ''s1'', isPaid = True, createdAt = 1000, paidAt = Some 1000, s_wallet = None\<rparr> \<and>
   sessions (fst (verify_payment production 5000 True (Some ''0x0123456789abcdef'') (Some ''s1'') paid_once))
     (Some ''s1'') =
     Some \<lparr>s_id = Some ''s1'', isPaid = True, createdAt = 1000, paidAt = Some 5000, s_wallet = None\<rparr> \<and>
   Some (1000 :: int) \<noteq> Some 5000"
  by (simp add: paid_once_def eval_defs)

text \<open>
  Claim C10. Outside sandbox mode, \<open>/api/verify-payment\<close> marks the session paid for
  every transaction hash of more than 10 characters, whatever the characters are (nothing
  is checked against a chain), and it answers 400 exactly when the hash is absent or has
  10 characters or fewer.
\<close>

theorem verify_payment_production_length_check:
  assumes "\<not> SANDBOX_MODE cfg"
  shows "(\<forall>h. txHash = Some h \<and> length h > 10 \<longrightarrow>
            snd (verify_payment cfg now fee_ok txHash sessionId st) =
              VerifiedResponse sessionId ''Payment verified successfully'' \<and>
            map_option isPaid (sessions (fst (verify_payment cfg now fee_ok txHash sessionId st)) sessionId) =
              Some True \<and>
            map_option paidAt (sessions (fst (verify_payment cfg now fee_ok txHash sessionId st)) sessionId) =
              Some (Some now)) \<and>
         ((\<exists>msg. snd (verify_payment cfg now fee_ok txHash sessionId st) = ErrorResponse 400 msg) \<longleftrightarrow>
            (txHash = None \<or> (\<exists>h. txHash = Some h \<and> length h \<le> 10)))"
proof (cases txHash)
  case None
  then show ?thesis by (simp add: verify_payment_def truthy_def)
next
  case (Some h)
  show ?thesis
  proof (cases "h = []")
    case True
    with Some show ?thesis by (simp add: verify_payment_def truthy_def)
  next
    case False
    with Some assms show ?thesis
      by (auto simp: verify_payment_def truthy_def Let_def)
  qed
qed

text \<open>
  Claim C10 at a hash that names no transaction, at a hash of exactly 10 characters and
  at a missing hash.
\<close>

theorem verify_payment_production_length_check_witness:
  "\<not> SANDBOX_MODE production \<and>
   snd (verify_payment production 1000 True (Some ''not-a-transaction'') (Some ''s1'') empty_server) =
     VerifiedResponse (Some ''s1'') ''Payment verified successfully'' \<and>
   map_option isPaid
     (sessions (fst (verify_payment production 1000 True (Some ''not-a-transaction'') (Some ''s1'') empty_server))
        (Some ''s1'')) = Some True \<and>
   snd (verify_payment production 1000 True (Some ''0123456789'') (Some ''s1'') empty_server) =
     ErrorResponse 400 ''Invalid transaction hash'' \<and>
   snd (verify_payment production 1000 True None (Some ''s1'') empty_server) =
     ErrorResponse 400 ''Missing transaction hash''"
proof -
  have h: "\<not> SANDBOX_MODE production" by (simp add: production_def)
  have a: "snd (verify_payment production 1000 True (Some ''0123456789'') (Some ''s1'') empty_server) =
     ErrorResponse 400 ''Invalid transaction hash''"
    by (simp add: eval_defs)
  have b: "snd (verify_payment production 1000 True None (Some ''s1'') empty_server) =
     ErrorResponse 400 ''Missing transaction hash''"
    by (simp add: eval_defs)
  show ?thesis
    using h a b
      verify_payment_production_length_check [OF h, where txHash = "Some ''not-a-transaction''"
        and now = 1000 and fee_ok = True and sessionId = "Some ''s1''" and st = empty_server]
    by simp
qed

section \<open>Boards and reward maps\<close>

lemma map_zip_index:
  "length indices = length rows \<Longrightarrow> map (\<lambda>p. f (fst p)) (zip rows indices) = map f rows"
proof -
  assume len: "length indices = length rows"
  have "map (\<lambda>p. f (fst p)) (zip rows indices) = map f (map fst (zip rows indices))"
    by (simp add: comp_def)
  also have "map fst (zip rows indices) = rows" using len by simp
  finally show ?thesis .
qed

lemma update_absent:
  "k \<notin> fst ` set al \<Longrightarrow> AList.update k v al = al @ [(k, v)]"
  by (induction al) auto

lemma foldl_update_distinct:
  "distinct (map fst m @ map k es) \<Longrightarrow>
   foldl (\<lambda>m e. AList.update (k e) (v e) m) m es = m @ map (\<lambda>e. (k e, v e)) es"
proof (induction es arbitrary: m)
  case Nil
  then show ?case by simp
next
  case (Cons e es)
  have absent: "k e \<notin> fst ` set m" using Cons.prems by auto
  have "distinct (map fst (m @ [(k e, v e)]) @ map k es)" using Cons.prems by auto
  then have "foldl (\<lambda>m e. AList.update (k e) (v e) m) (m @ [(k e, v e)]) es =
             (m @ [(k e, v e)]) @ map (\<lambda>e. (k e, v e)) es"
    by (rule Cons.IH)
  then show ?case by (simp add: update_absent [OF absent])
qed

lemma sum_list_map_insort_key:
  "sum_list (map g (insort_key f x xs)) = g x + sum_list (map g xs)" for g :: "'a \<Rightarrow> number"
  by (induction xs) (simp_all add: algebra_simps)

lemma sum_list_map_sort_key:
  "sum_list (map g (sort_key f xs)) = sum_list (map g xs)" for g :: "'a \<Rightarrow> number"
  by (induction xs) (simp_all add: sum_list_map_insort_key)

lemma distinct_map_insort_key:
  "distinct (map g (insort_key f x xs)) = (g x \<notin> g ` set xs \<and> distinct (map g xs))"
  by (induction xs) (auto simp: set_insort_key)

lemma distinct_map_sort_key:
  "distinct (map g (sort_key f xs)) = distinct (map g xs)"
  by (induction xs) (simp_all add: distinct_map_insort_key)

lemma sort_key_constant:
  "(\<And>x. x \<in> set xs \<Longrightarrow> f x = c) \<Longrightarrow> sort_key f xs = xs"
proof (induction xs)
  case Nil
  then show ?case by simp
next
  case (Cons x xs)
  then have "sort_key f xs = xs" by simp
  moreover have "insort_key f x xs = x # xs"
    using Cons.prems by (cases xs) simp_all
  ultimately show ?case by simp
qed

lemma getDailyLeaderboard_pairs:
  assumes "getDailyLeaderboard ok store type 1000 = Inr entries"
  shows "map (\<lambda>e. (e_wallet e, e_score e)) entries =
         map (\<lambda>row. (walletDaily row, daily_column type row)) (daily_rows store type)"
proof -
  from assms have ok by (simp add: getDailyLeaderboard_def Let_def split: if_splits)
  with assms show ?thesis
    by (cases type)
      (auto simp: getDailyLeaderboard_def daily_rows_def daily_column_def Let_def comp_def
        case_prod_unfold
        map_zip_index [where f = "\<lambda>row. (walletDaily row, totalScoreDaily row)"]
        map_zip_index [where f = "\<lambda>row. (walletDaily row, highScoreDaily row)"])
qed

lemma getDailyLeaderboard_wallets:
  assumes "getDailyLeaderboard ok store type 1000 = Inr entries"
  shows "map e_wallet entries = map walletDaily (daily_rows store type)"
proof -
  from getDailyLeaderboard_pairs [OF assms]
  have "map fst (map (\<lambda>e. (e_wallet e, e_score e)) entries) =
        map fst (map (\<lambda>row. (walletDaily row, daily_column type row)) (daily_rows store type))"
    by simp
  then show ?thesis by (simp add: comp_def)
qed

lemma getDailyLeaderboard_scores:
  assumes "getDailyLeaderboard ok store type 1000 = Inr entries"
  shows "map e_score entries = map (daily_column type) (daily_rows store type)"
proof -
  from getDailyLeaderboard_pairs [OF assms]
  have "map snd (map (\<lambda>e. (e_wallet e, e_score e)) entries) =
        map snd (map (\<lambda>row. (walletDaily row, daily_column type row)) (daily_rows store type))"
    by simp
  then show ?thesis by (simp add: comp_def)
qed

lemma distinct_wallets_daily_rows:
  assumes "distinct (map walletDaily (daily_player_stats store))"
  shows "distinct (map walletDaily (daily_rows store type))"
proof -
  have "distinct (map walletDaily (sort_key (\<lambda>row. - daily_column type row)
          (filter (\<lambda>row. daily_column type row > 0) (daily_player_stats store))))"
    using assms by (simp add: distinct_map_sort_key distinct_map_filter)
  then have "distinct (take 1000 (map walletDaily (sort_key (\<lambda>row. - daily_column type row)
          (filter (\<lambda>row. daily_column type row > 0) (daily_player_stats store)))))"
    by (rule distinct_take)
  then show ?thesis by (simp add: daily_rows_def take_map)
qed

lemma getDailyLeaderboard_distinct:
  assumes "distinct (map walletDaily (daily_player_stats store))"
    and "getDailyLeaderboard ok store type 1000 = Inr entries"
  shows "distinct (map e_wallet entries)"
  using distinct_wallets_daily_rows [OF assms(1), of type] getDailyLeaderboard_wallets [OF assms(2)]
  by simp

lemma floor_rat_numeral: "\<lfloor>numeral a / numeral b :: rat\<rfloor> = numeral a div numeral b"
  using floor_divide_of_int_eq [of "numeral a" "numeral b", where ?'a = rat] by simp

lemma floor_rat_one: "\<lfloor>1 / numeral b :: rat\<rfloor> = 1 div numeral b"
  using floor_divide_of_int_eq [of 1 "numeral b", where ?'a = rat] by simp

lemma cycle_reads_Inr:
  assumes "cycle_reads env store =
             Inr (totalPool, sumTotalScores, sumHighScores, totalEntries, highEntries)"
  shows "getTotalEntryFeesSince (fees_ok env) store (cycle_now env - 24 * 60 * 60 * 1000) = Inr totalPool"
    and "getDailyScoresSum (sum_total_ok env) store Total = Inr sumTotalScores"
    and "getDailyScoresSum (sum_high_ok env) store High = Inr sumHighScores"
    and "getDailyLeaderboard (board_total_ok env) store Total 1000 = Inr totalEntries"
    and "getDailyLeaderboard (board_high_ok env) store High 1000 = Inr highEntries"
  using assms by (simp_all add: cycle_reads_def split: sum.splits)

lemma map_of_map_find:
  "map_of (map (\<lambda>e. (k e, v e)) es) w = map_option v (find (\<lambda>e. k e = w) es)"
  by (induction es) auto

lemma rewardTotalMap_of_explicit:
  assumes "distinct (map e_wallet totalEntries)"
  shows "rewardTotalMap_of sumTotalScores poolTotal totalEntries =
           (if sumTotalScores > 0 \<and> poolTotal > 0
            then map (\<lambda>e. (e_wallet e, e_score e / sumTotalScores * poolTotal)) totalEntries
            else [])"
proof -
  from assms
  have "foldl (\<lambda>m e. AList.update (e_wallet e) ((e_score e / sumTotalScores) * poolTotal) m)
               [] totalEntries =
             [] @ map (\<lambda>e. (e_wallet e, (e_score e / sumTotalScores) * poolTotal)) totalEntries"
    by (intro foldl_update_distinct) simp
  then show ?thesis by (simp add: rewardTotalMap_of_def)
qed

lemma rewardHighMap_of_explicit:
  assumes "distinct (map e_wallet highEntries)"
  shows "rewardHighMap_of poolHigh highEntries =
       (if poolHigh > 0
        then case map e_wallet highEntries of
          [] \<Rightarrow> []
        | [a] \<Rightarrow> [(a, poolHigh)]
        | [a, b] \<Rightarrow> [(a, poolHigh * (70 / 100)), (b, poolHigh * (30 / 100))]
        | a # b # c # others \<Rightarrow>
            [(a, poolHigh * (60 / 100)), (b, poolHigh * (25 / 100)), (c, poolHigh * (15 / 100))]
        else [])"
proof (cases highEntries)
  case Nil
  then show ?thesis by (simp add: rewardHighMap_of_def)
next
  case (Cons e1 rest1)
  note c1 = this
  show ?thesis
  proof (cases rest1)
    case Nil
    with c1 assms show ?thesis by (simp add: rewardHighMap_of_def)
  next
    case (Cons e2 rest2)
    note c2 = this
    show ?thesis
    proof (cases rest2)
      case Nil
      with c1 c2 assms show ?thesis by (auto simp: rewardHighMap_of_def)
    next
      case (Cons e3 rest3)
      with c1 c2 assms show ?thesis by (auto simp: rewardHighMap_of_def)
    qed
  qed
qed

lemma tiers_keys:
  "map fst (case ws of
          [] \<Rightarrow> []
        | [a] \<Rightarrow> [(a, p1)]
        | [a, b] \<Rightarrow> [(a, p2), (b, p3)]
        | a # b # c # others \<Rightarrow> [(a, p4), (b, p5), (c, p6)]) = take 3 ws"
  by (auto split: list.splits)

lemma sorted_uminus: "sorted (map uminus xs) = sorted_wrt (\<ge>) xs" for xs :: "number list"
  by (induction xs) auto

lemma daily_rows_ranked:
  "sorted_wrt (\<ge>) (map (daily_column type) (daily_rows store type))"
proof -
  have "sorted (map (\<lambda>row. - daily_column type row)
          (sort_key (\<lambda>row. - daily_column type row)
             (filter (\<lambda>row. daily_column type row > 0) (daily_player_stats store))))"
    by (rule sorted_sort_key)
  then have "sorted (take 1000 (map (\<lambda>row. - daily_column type row)
          (sort_key (\<lambda>row. - daily_column type row)
             (filter (\<lambda>row. daily_column type row > 0) (daily_player_stats store)))))"
    by (rule sorted_wrt_take)
  then have "sorted (map uminus (map (daily_column type) (daily_rows store type)))"
    by (simp add: daily_rows_def take_map comp_def)
  then show ?thesis by (simp only: sorted_uminus)
qed

text \<open>
  A row outside the first three of the board scores no more than any of the three.
\<close>

lemma daily_rows_top3_dominate:
  assumes "row \<in> set (daily_player_stats store)"
    and "row \<notin> set (take 3 (daily_rows store type))"
    and "best \<in> set (take 3 (daily_rows store type))"
  shows "daily_column type row \<le> daily_column type best"
proof -
  define ordered where "ordered = sort_key (\<lambda>row. - daily_column type row)
             (filter (\<lambda>row. daily_column type row > 0) (daily_player_stats store))"
  have t3: "take 3 (daily_rows store type) = take 3 ordered"
    by (simp add: daily_rows_def ordered_def)
  have top_in: "best \<in> set (take 3 ordered)" using assms(3) t3 by simp
  then have "best \<in> set ordered" by (rule in_set_takeD)
  then have top_pos: "daily_column type best > 0" by (simp add: ordered_def)
  show ?thesis
  proof (cases "daily_column type row > 0")
    case False
    with top_pos show ?thesis by simp
  next
    case True
    with assms(1) have "row \<in> set ordered" by (simp add: ordered_def)
    then have "row \<in> set (take 3 ordered) \<or> row \<in> set (drop 3 ordered)"
      using set_append [of "take 3 ordered" "drop 3 ordered"] by simp
    with assms(2) t3 have row_in: "row \<in> set (drop 3 ordered)" by simp
    have "sorted (map (\<lambda>row. - daily_column type row) ordered)"
      unfolding ordered_def by (rule sorted_sort_key)
    then have "sorted (map (\<lambda>row. - daily_column type row) (take 3 ordered) @
                       map (\<lambda>row. - daily_column type row) (drop 3 ordered))"
      by (simp only: map_append [symmetric] append_take_drop_id)
    then have "\<forall>x \<in> set (map (\<lambda>row. - daily_column type row) (take 3 ordered)).
               \<forall>y \<in> set (map (\<lambda>row. - daily_column type row) (drop 3 ordered)). x \<le> y"
      unfolding sorted_append by blast
    then have "\<forall>x \<in> set (take 3 ordered). \<forall>y \<in> set (drop 3 ordered).
                 - daily_column type x \<le> - daily_column type y"
      by simp
    with top_in row_in show ?thesis by auto
  qed
qed

lemma outside_top3_unrewarded:
  assumes "w \<notin> set (take 3 ws)"
  shows "map_of (case ws of
          [] \<Rightarrow> []
        | [a] \<Rightarrow> [(a, p1)]
        | [a, b] \<Rightarrow> [(a, p2), (b, p3)]
        | a # b # c # others \<Rightarrow> [(a, p4), (b, p5), (c, p6)]) w = (None :: number option)"
  using assms by (auto split: list.splits)

text \<open>
  The primary key: what the store does to the daily table keeps its wallets distinct.
\<close>

lemma distinct_insert_or_replace:
  "distinct (map key rows) \<Longrightarrow> distinct (map key (insert_or_replace key new rows))"
  by (auto simp: insert_or_replace_def distinct_map_filter)

lemma updateDailyPlayerStats_keeps_key:
  assumes "distinct (map walletDaily (daily_player_stats store))"
    and "updateDailyPlayerStats ok now store w score = Inr (store', row)"
  shows "distinct (map walletDaily (daily_player_stats store'))"
  using assms
  by (auto simp: updateDailyPlayerStats_def getDailyPlayerStats_def Let_def
      distinct_insert_or_replace split: if_splits)

lemma resetDailyStats_keeps_key:
  assumes "distinct (map walletDaily (daily_player_stats store))"
    and "resetDailyStats ok store = Inr store'"
  shows "distinct (map walletDaily (daily_player_stats store'))"
  using assms by (auto simp: resetDailyStats_def comp_def split: if_splits)

section \<open>The set of rewarded wallets\<close>

lemma set_foldl_new_Set:
  "set (foldl (\<lambda>s x. if x \<in> set s then s else s @ [x]) acc xs) = set acc \<union> set xs"
  by (induction xs arbitrary: acc) auto

lemma distinct_foldl_new_Set:
  "distinct acc \<Longrightarrow> distinct (foldl (\<lambda>s x. if x \<in> set s then s else s @ [x]) acc xs)"
  by (induction xs arbitrary: acc) auto

lemma set_new_Set: "set (new_Set xs) = set xs"
  by (simp add: new_Set_def set_foldl_new_Set)

lemma distinct_new_Set: "distinct (new_Set xs)"
  by (simp add: new_Set_def distinct_foldl_new_Set)

lemma foldl_new_Set_absorbs:
  "set ys \<subseteq> set acc \<Longrightarrow> foldl (\<lambda>s x. if x \<in> set s then s else s @ [x]) acc ys = acc"
  by (induction ys arbitrary: acc) auto

lemma foldl_new_Set_distinct:
  "distinct (acc @ xs) \<Longrightarrow> foldl (\<lambda>s x. if x \<in> set s then s else s @ [x]) acc xs = acc @ xs"
  by (induction xs arbitrary: acc) auto

lemma new_Set_distinct_append:
  assumes "distinct xs" and "set ys \<subseteq> set xs"
  shows "new_Set (xs @ ys) = xs"
proof -
  have "foldl (\<lambda>s x. if x \<in> set s then s else s @ [x]) [] xs = [] @ xs"
    by (rule foldl_new_Set_distinct) (simp add: assms(1))
  then show ?thesis using assms(2) by (simp add: new_Set_def foldl_new_Set_absorbs)
qed

section \<open>What one run of the cycle does\<close>

lemma appendPayoutLogs_effects:
  "effects (appendPayoutLogs ok n entries st) = effects st @ map AppendPayoutLog entries"
  by (induction entries arbitrary: n st) (simp_all add: appendPayoutLog_def)

lemma appendPayoutLogs_payouts_log:
  "payouts_log (appendPayoutLogs ok n entries st) =
     payouts_log st + mset (nths entries {i. ok (n + i)})"
  by (induction entries arbitrary: n st) (simp_all add: appendPayoutLog_def nths_Cons)

lemma appendPayoutLogs_rest [simp]:
  "db (appendPayoutLogs ok n entries st) = db st"
  "lastPayoutAt (appendPayoutLogs ok n entries st) = lastPayoutAt st"
  "nextPayoutAt (appendPayoutLogs ok n entries st) = nextPayoutAt st"
  by (induction entries arbitrary: n st) (simp_all add: appendPayoutLog_def)

lemma settle_onchain_rest [simp]:
  "db (settle_onchain cfg now outcome logged ws rs st) = db st"
  "lastPayoutAt (settle_onchain cfg now outcome logged ws rs st) = lastPayoutAt st"
  "nextPayoutAt (settle_onchain cfg now outcome logged ws rs st) = nextPayoutAt st"
  by (simp_all add: settle_onchain_def appendPayoutLog_def Let_def split: settlement.splits)

lemma settle_onchain_effects:
  "effects (settle_onchain cfg now outcome logged ws rs st) =
     effects st @
     (if ONCHAIN_CONFIGURED cfg
      then [EndCycleCall ws rs,
            AppendPayoutLog (case outcome of
                TxMined h status \<Rightarrow> OnchainEndCycle h (buildExplorerTxLink cfg (Some h)) status now
              | TxThrows msg \<Rightarrow> OnchainEndCycleError msg now)]
      else [])"
  by (simp add: settle_onchain_def appendPayoutLog_def Let_def split: settlement.splits)

lemma settle_onchain_payouts_log:
  "payouts_log (settle_onchain cfg now outcome logged ws rs st) =
     payouts_log st +
     mset (nths (if ONCHAIN_CONFIGURED cfg
                 then [case outcome of
                         TxMined h status \<Rightarrow> OnchainEndCycle h (buildExplorerTxLink cfg (Some h)) status now
                       | TxThrows msg \<Rightarrow> OnchainEndCycleError msg now]
                 else []) {i. logged})"
  by (simp add: settle_onchain_def appendPayoutLog_def Let_def nths_singleton split: settlement.splits)

text \<open>
  What a run whose reads succeed does, in terms of the maps it builds: the calls it makes
  in program order, what the journal file holds afterwards, and what becomes of the
  store and of the clock.
\<close>

lemma runPayoutCycle_run:
  fixes cfg env st totalPool sumTotalScores sumHighScores totalEntries highEntries
  defines "rtm \<equiv> rewardTotalMap_of sumTotalScores (totalPool * (70 / 100)) totalEntries"
    and "rhm \<equiv> rewardHighMap_of (totalPool * (25 / 100)) highEntries"
  defines "ws \<equiv> new_Set (map fst rtm @ map fst rhm)"
  defines "lines \<equiv> audit_lines (toFixed6 env) (toFixed6_treasury env) (cycle_now env)
                     (totalPool * (5 / 100)) totalEntries highEntries rtm rhm ws"
    and "line \<equiv> (case settles env of
                TxMined h status \<Rightarrow>
                  OnchainEndCycle h (buildExplorerTxLink cfg (Some h)) status (cycle_now env)
              | TxThrows msg \<Rightarrow> OnchainEndCycleError msg (cycle_now env))"
  assumes reads: "cycle_reads env (db st) =
             Inr (totalPool, sumTotalScores, sumHighScores, totalEntries, highEntries)"
  shows "effects (runPayoutCycle cfg env st) =
           effects st @ map AppendPayoutLog lines @
           (if ONCHAIN_CONFIGURED cfg
            then [EndCycleCall ws (map (\<lambda>w. toUnits env w (reward_of rtm rhm w)) ws),
                  AppendPayoutLog line]
            else [])"
    and "payouts_log (runPayoutCycle cfg env st) =
           payouts_log st +
           mset (nths (lines @ (if ONCHAIN_CONFIGURED cfg then [line] else [])) {i. write_ok env i})"
    and "db (runPayoutCycle cfg env st) =
           (case resetDailyStats (reset_ok env) (db st) of Inl e \<Rightarrow> db st | Inr db' \<Rightarrow> db')"
    and "lastPayoutAt (runPayoutCycle cfg env st) =
           (if reset_ok env then cycle_now env else lastPayoutAt st)"
    and "nextPayoutAt (runPayoutCycle cfg env st) =
           (if reset_ok env then cycle_now env + 24 * 60 * 60 * 1000 else nextPayoutAt st)"
proof -
  have j: "nths (lines @ (if ONCHAIN_CONFIGURED cfg then [line] else [])) {i. write_ok env i} =
           nths lines {i. write_ok env i} @
           nths (if ONCHAIN_CONFIGURED cfg then [line] else []) {i. write_ok env (length lines)}"
    by (simp add: nths_append nths_singleton)
  show "effects (runPayoutCycle cfg env st) =
           effects st @ map AppendPayoutLog lines @
           (if ONCHAIN_CONFIGURED cfg
            then [EndCycleCall ws (map (\<lambda>w. toUnits env w (reward_of rtm rhm w)) ws),
                  AppendPayoutLog line]
            else [])"
    unfolding rtm_def rhm_def ws_def lines_def line_def runPayoutCycle_def reads Let_def
    by (simp add: resetDailyStats_def settle_onchain_effects appendPayoutLogs_effects)
  show "payouts_log (runPayoutCycle cfg env st) =
           payouts_log st +
           mset (nths (lines @ (if ONCHAIN_CONFIGURED cfg then [line] else [])) {i. write_ok env i})"
    unfolding j
    unfolding rtm_def rhm_def ws_def lines_def line_def runPayoutCycle_def reads Let_def
    by (simp add: resetDailyStats_def settle_onchain_payouts_log appendPayoutLogs_payouts_log)
  show "db (runPayoutCycle cfg env st) =
           (case resetDailyStats (reset_ok env) (db st) of Inl e \<Rightarrow> db st | Inr db' \<Rightarrow> db')"
    unfolding runPayoutCycle_def reads Let_def by (simp add: resetDailyStats_def)
  show "lastPayoutAt (runPayoutCycle cfg env st) =
           (if reset_ok env then cycle_now env else lastPayoutAt st)"
    unfolding runPayoutCycle_def reads Let_def by (simp add: resetDailyStats_def)
  show "nextPayoutAt (runPayoutCycle cfg env st) =
           (if reset_ok env then cycle_now env + 24 * 60 * 60 * 1000 else nextPayoutAt st)"
    unfolding runPayoutCycle_def reads Let_def by (simp add: resetDailyStats_def)
qed

text \<open>
  Where the wallets of each board are distinct the two maps have a closed form, and so
  have the reward of a wallet and the set of rewarded wallets.
\<close>

lemma reward_of_explicit:
  assumes "distinct (map e_wallet totalEntries)" and "distinct (map e_wallet highEntries)"
  shows "reward_of (rewardTotalMap_of sumTotalScores poolTotal totalEntries)
           (rewardHighMap_of poolHigh highEntries) w =
     (if 0 < sumTotalScores \<and> 0 < poolTotal
      then (case find (\<lambda>e. e_wallet e = w) totalEntries of
              None \<Rightarrow> 0
            | Some e \<Rightarrow> e_score e / sumTotalScores * poolTotal)
      else 0) +
     (if 0 < poolHigh
      then or_zero (map_of (case map e_wallet highEntries of
          [] \<Rightarrow> []
        | [a] \<Rightarrow> [(a, poolHigh)]
        | [a, b] \<Rightarrow> [(a, poolHigh * (70 / 100)), (b, poolHigh * (30 / 100))]
        | a # b # c # others \<Rightarrow>
            [(a, poolHigh * (60 / 100)), (b, poolHigh * (25 / 100)), (c, poolHigh * (15 / 100))]) w)
      else 0)"
proof -
  have v: "or_zero (map_of (rewardTotalMap_of sumTotalScores poolTotal totalEntries) w) =
     (if 0 < sumTotalScores \<and> 0 < poolTotal
      then (case find (\<lambda>e. e_wallet e = w) totalEntries of
              None \<Rightarrow> 0
            | Some e \<Rightarrow> e_score e / sumTotalScores * poolTotal)
      else 0)"
    by (simp add: rewardTotalMap_of_explicit [OF assms(1)] map_of_map_find or_zero_def
        split: option.splits)
  have p: "or_zero (map_of (rewardHighMap_of poolHigh highEntries) w) =
     (if 0 < poolHigh
      then or_zero (map_of (case map e_wallet highEntries of
          [] \<Rightarrow> []
        | [a] \<Rightarrow> [(a, poolHigh)]
        | [a, b] \<Rightarrow> [(a, poolHigh * (70 / 100)), (b, poolHigh * (30 / 100))]
        | a # b # c # others \<Rightarrow>
            [(a, poolHigh * (60 / 100)), (b, poolHigh * (25 / 100)), (c, poolHigh * (15 / 100))]) w)
      else 0)"
    by (simp add: rewardHighMap_of_explicit [OF assms(2)] or_zero_def)
  show ?thesis unfolding reward_of_def v p by (rule refl)
qed

lemma set_cycle_wallets:
  assumes "distinct (map e_wallet totalEntries)" and "distinct (map e_wallet highEntries)"
  shows "set (new_Set (map fst (rewardTotalMap_of sumTotalScores poolTotal totalEntries) @
                       map fst (rewardHighMap_of poolHigh highEntries))) =
     (if 0 < sumTotalScores \<and> 0 < poolTotal then set (map e_wallet totalEntries) else {}) \<union>
     (if 0 < poolHigh then set (take 3 (map e_wallet highEntries)) else {})"
proof -
  have v: "map fst (rewardTotalMap_of sumTotalScores poolTotal totalEntries) =
     (if 0 < sumTotalScores \<and> 0 < poolTotal then map e_wallet totalEntries else [])"
    by (simp add: rewardTotalMap_of_explicit [OF assms(1)] comp_def)
  have p: "map fst (rewardHighMap_of poolHigh highEntries) =
     (if 0 < poolHigh then take 3 (map e_wallet highEntries) else [])"
    by (simp add: rewardHighMap_of_explicit [OF assms(2)] tiers_keys)
  show ?thesis unfolding set_new_Set v p
    by (cases "0 < sumTotalScores \<and> 0 < poolTotal"; cases "0 < poolHigh"; auto)
qed

text \<open>
  The reset at the end of a run, written out on the rows.
\<close>

lemma map_zero_replicate:
  "map (\<lambda>x. 0 :: number) rows = replicate (length rows) 0"
  by (induction rows) simp_all

lemma runPayoutCycle_reset:
  assumes reads: "cycle_reads env (db st) =
             Inr (totalPool, sumTotalScores, sumHighScores, totalEntries, highEntries)"
  shows "if reset_ok env
         then player_stats (db (runPayoutCycle cfg env st)) = player_stats (db st) \<and>
              entry_fees (db (runPayoutCycle cfg env st)) = entry_fees (db st) \<and>
              map walletDaily (daily_player_stats (db (runPayoutCycle cfg env st))) =
                map walletDaily (daily_player_stats (db st)) \<and>
              map lastPlayedDaily (daily_player_stats (db (runPayoutCycle cfg env st))) =
                map lastPlayedDaily (daily_player_stats (db st)) \<and>
              map totalScoreDaily (daily_player_stats (db (runPayoutCycle cfg env st))) =
                replicate (length (daily_player_stats (db st))) 0 \<and>
              map highScoreDaily (daily_player_stats (db (runPayoutCycle cfg env st))) =
                replicate (length (daily_player_stats (db st))) 0 \<and>
              map gamesPlayedDaily (daily_player_stats (db (runPayoutCycle cfg env st))) =
                replicate (length (daily_player_stats (db st))) 0 \<and>
              lastPayoutAt (runPayoutCycle cfg env st) = cycle_now env \<and>
              nextPayoutAt (runPayoutCycle cfg env st) = cycle_now env + 24 * 60 * 60 * 1000
         else db (runPayoutCycle cfg env st) = db st \<and>
              lastPayoutAt (runPayoutCycle cfg env st) = lastPayoutAt st \<and>
              nextPayoutAt (runPayoutCycle cfg env st) = nextPayoutAt st"
  unfolding runPayoutCycle_run(3-5) [OF reads]
  by (simp add: resetDailyStats_def comp_def map_zero_replicate)

section \<open>The cycles of the scenarios\<close>

lemmas read_eval_defs = cycle_reads_def getTotalEntryFeesSince_def getDailyScoresSum_def
  sum_overflows_def stored_as_integer_def getDailyLeaderboard_def or_zero_def Let_def
  settled_cycle_def settlement_fails_def writes_fail_def
  upt_rec [of 0] upt_rec [of 1] upt_rec [of 2] upt_rec [of 3] upt_rec [of 4]

lemmas run_eval_defs = runPayoutCycle_def rewardTotalMap_of_def rewardHighMap_of_def new_Set_def
  reward_of_def entry_score_def audit_lines_def settle_onchain_def appendPayoutLog_def
  buildExplorerTxLink_def resetDailyStats_def nearest_millionth_def or_zero_def Let_def
  settled_cycle_def settlement_fails_def writes_fail_def production_def
  floor_rat_numeral floor_rat_one

lemma scenario_reads:
  "cycle_reads settlement_fails scenario_db =
     Inr (3, 30, 30,
       [\<lparr>e_rank = 1, e_wallet = ''0xB'', e_score = 20, e_gamesPlayed = 1, e_lastPlayed = 6500\<rparr>,
        \<lparr>e_rank = 2, e_wallet = ''0xA'', e_score = 10, e_gamesPlayed = 1, e_lastPlayed = 5500\<rparr>],
       [\<lparr>e_rank = 1, e_wallet = ''0xB'', e_score = 20, e_gamesPlayed = 1, e_lastPlayed = 6500\<rparr>,
        \<lparr>e_rank = 2, e_wallet = ''0xA'', e_score = 10, e_gamesPlayed = 1, e_lastPlayed = 5500\<rparr>])"
  "cycle_reads writes_fail scenario_db = cycle_reads settlement_fails scenario_db"
  by (simp_all add: read_eval_defs scenario_db_def)

lemma scenario_server_reads:
  "cycle_reads settlement_fails (db scenario_server) =
     Inr (3, 30, 30,
       [\<lparr>e_rank = 1, e_wallet = ''0xB'', e_score = 20, e_gamesPlayed = 1, e_lastPlayed = 6500\<rparr>,
        \<lparr>e_rank = 2, e_wallet = ''0xA'', e_score = 10, e_gamesPlayed = 1, e_lastPlayed = 5500\<rparr>],
       [\<lparr>e_rank = 1, e_wallet = ''0xB'', e_score = 20, e_gamesPlayed = 1, e_lastPlayed = 6500\<rparr>,
        \<lparr>e_rank = 2, e_wallet = ''0xA'', e_score = 10, e_gamesPlayed = 1, e_lastPlayed = 5500\<rparr>])"
  "cycle_reads writes_fail (db scenario_server) =
     Inr (3, 30, 30,
       [\<lparr>e_rank = 1, e_wallet = ''0xB'', e_score = 20, e_gamesPlayed = 1, e_lastPlayed = 6500\<rparr>,
        \<lparr>e_rank = 2, e_wallet = ''0xA'', e_score = 10, e_gamesPlayed = 1, e_lastPlayed = 5500\<rparr>],
       [\<lparr>e_rank = 1, e_wallet = ''0xB'', e_score = 20, e_gamesPlayed = 1, e_lastPlayed = 6500\<rparr>,
        \<lparr>e_rank = 2, e_wallet = ''0xA'', e_score = 10, e_gamesPlayed = 1, e_lastPlayed = 5500\<rparr>])"
  by (simp_all add: scenario_server_def scenario_reads)

lemma scenario_failed_settlement:
  "effects (runPayoutCycle production settlement_fails scenario_server) =
     [AppendPayoutLog (RewardEntry ''0xB'' 20 20 1925000 86401000),
      AppendPayoutLog (RewardEntry ''0xA'' 10 10 925000 86401000),
      AppendPayoutLog (TreasuryEntry 150000 86401000),
      EndCycleCall [''0xB'', ''0xA''] [1925000, 925000],
      AppendPayoutLog (OnchainEndCycleError ''execution reverted'' 86401000)]"
  "payouts_log (runPayoutCycle production settlement_fails scenario_server) =
     {#RewardEntry ''0xB'' 20 20 1925000 86401000,
       RewardEntry ''0xA'' 10 10 925000 86401000,
       TreasuryEntry 150000 86401000,
       OnchainEndCycleError ''execution reverted'' 86401000#}"
  "daily_player_stats (db (runPayoutCycle production settlement_fails scenario_server)) =
     [\<lparr>walletDaily = ''0xA'', totalScoreDaily = 0, highScoreDaily = 0, gamesPlayedDaily = 0,
       lastPlayedDaily = 5500\<rparr>,
      \<lparr>walletDaily = ''0xB'', totalScoreDaily = 0, highScoreDaily = 0, gamesPlayedDaily = 0,
       lastPlayedDaily = 6500\<rparr>]"
  unfolding runPayoutCycle_def scenario_server_reads sum.case prod.case
  by (simp_all add: scenario_server_def empty_server_def run_eval_defs scenario_db_def)

lemma scenario_failed_writes:
  "effects (runPayoutCycle production writes_fail scenario_server) =
     [AppendPayoutLog (RewardEntry ''0xB'' 20 20 1925000 86401000),
      AppendPayoutLog (RewardEntry ''0xA'' 10 10 925000 86401000),
      AppendPayoutLog (TreasuryEntry 150000 86401000),
      EndCycleCall [''0xB'', ''0xA''] [1925000, 925000],
      AppendPayoutLog (OnchainEndCycle ''0xfeed'' (Some ''https://sepolia.basescan.org/tx/0xfeed'')
                         (Some 1) 86401000)]"
  "payouts_log (runPayoutCycle production writes_fail scenario_server) = {#}"
  unfolding runPayoutCycle_def scenario_server_reads sum.case prod.case
  by (simp_all add: scenario_server_def empty_server_def run_eval_defs scenario_db_def)

section \<open>Peak shares\<close>

lemma daily_rows_subset:
  "set (daily_rows store type) \<subseteq>
     {row \<in> set (daily_player_stats store). daily_column type row > 0}"
proof -
  have "set (daily_rows store type) \<subseteq>
        set (sort_key (\<lambda>row. - daily_column type row)
          (filter (\<lambda>row. daily_column type row > 0) (daily_player_stats store)))"
    unfolding daily_rows_def by (rule set_take_subset)
  then show ?thesis by auto
qed

lemma getDailyLeaderboard_entries:
  assumes "getDailyLeaderboard ok store type 1000 = Inr entries" and "e \<in> set entries"
  shows "0 < e_score e \<and>
         (\<exists>row \<in> set (daily_player_stats store).
            walletDaily row = e_wallet e \<and> daily_column type row = e_score e)"
proof -
  from assms(2) have "(e_wallet e, e_score e) \<in> set (map (\<lambda>e. (e_wallet e, e_score e)) entries)"
    by auto
  then have "(e_wallet e, e_score e) \<in>
       set (map (\<lambda>row. (walletDaily row, daily_column type row)) (daily_rows store type))"
    by (simp only: getDailyLeaderboard_pairs [OF assms(1)])
  then obtain row where row: "row \<in> set (daily_rows store type)"
    and w: "walletDaily row = e_wallet e" and s: "daily_column type row = e_score e"
    by auto
  from row daily_rows_subset [of store type]
  have "row \<in> set (daily_player_stats store)" and "daily_column type row > 0" by auto
  with w s show ?thesis by auto
qed

text \<open>
  Claim C5, as amended. In every payout cycle whose five database reads succeed and whose
  peak pool \<open>P\<close> (0.25 of the fee pool) is positive, over a daily table with one row per
  wallet (its primary key): the board of daily highs lists the players of positive daily
  high, each once, in descending order of score, as many as there are up to 1000; the
  peak shares are \<open>P\<close> for a single qualifier, \<open>0.70 P\<close> and \<open>0.30 P\<close> in rank
  order for two, and \<open>0.60 P\<close>, \<open>0.25 P\<close> and \<open>0.15 P\<close> for the first three of
  three or more; a wallet outside the first three has no peak share, and its player
  scores no more than any of the three. The first three are among the rewarded wallets
  of the cycle, which hands over one journal line for each rewarded wallet, carrying
  \<open>toFixed(6)\<close> of its volume share plus this peak share, then the treasury line, and
  passes \<open>Math.round\<close> of the same sum in millionths to the one \<open>endCycle\<close> call.
\<close>

theorem peak_shares_of_cycle:
  assumes wallets: "distinct (map walletDaily (daily_player_stats (db st)))"
    and reads: "cycle_reads env (db st) =
                  Inr (totalPool, sumTotalScores, sumHighScores, totalEntries, highEntries)"
    and pool: "0 < totalPool * (25 / 100)"
  shows
    "length highEntries =
       min 1000 (length (filter (\<lambda>row. highScoreDaily row > 0) (daily_player_stats (db st)))) \<and>
     (\<forall>e \<in> set highEntries.
        0 < e_score e \<and>
        (\<exists>row \<in> set (daily_player_stats (db st)).
           walletDaily row = e_wallet e \<and> highScoreDaily row = e_score e)) \<and>
     distinct (map e_wallet highEntries) \<and>
     sorted_wrt (\<ge>) (map e_score highEntries) \<and>
     (\<forall>row \<in> set (daily_player_stats (db st)).
        walletDaily row \<notin> set (take 3 (map e_wallet highEntries)) \<longrightarrow>
          (\<forall>e \<in> set (take 3 highEntries). highScoreDaily row \<le> e_score e)) \<and>
     (let P = totalPool * (25 / 100);
          now = cycle_now env;
          run = runPayoutCycle cfg env st;
          shares = (case map e_wallet highEntries of
                      [] \<Rightarrow> []
                    | [a] \<Rightarrow> [(a, P)]
                    | [a, b] \<Rightarrow> [(a, P * (70 / 100)), (b, P * (30 / 100))]
                    | a # b # c # others \<Rightarrow>
                        [(a, P * (60 / 100)), (b, P * (25 / 100)), (c, P * (15 / 100))]);
          peak = (\<lambda>w. or_zero (map_of shares w));
          volume = (\<lambda>w. if 0 < sumTotalScores \<and> 0 < totalPool * (70 / 100)
                         then (case find (\<lambda>e. e_wallet e = w) totalEntries of
                                 None \<Rightarrow> 0
                               | Some e \<Rightarrow> e_score e / sumTotalScores * (totalPool * (70 / 100)))
                         else 0)
      in rewardHighMap_of P highEntries = shares \<and>
         (\<forall>w. w \<notin> set (take 3 (map e_wallet highEntries)) \<longrightarrow> peak w = 0) \<and>
         (\<exists>winners.
            distinct winners \<and>
            set (take 3 (map e_wallet highEntries)) \<subseteq> set winners \<and>
            effects run =
              effects st @
              map (\<lambda>w. AppendPayoutLog (RewardEntry w
                          (or_zero (map_option e_score (find (\<lambda>e. e_wallet e = w) totalEntries)))
                          (or_zero (map_option e_score (find (\<lambda>e. e_wallet e = w) highEntries)))
                          (toFixed6 env w (volume w + peak w)) now)) winners @
              [AppendPayoutLog (TreasuryEntry (toFixed6_treasury env (totalPool * (5 / 100))) now)] @
              (if ONCHAIN_CONFIGURED cfg
               then [EndCycleCall winners (map (\<lambda>w. toUnits env w (volume w + peak w)) winners),
                     AppendPayoutLog
                       (case settles env of
                          TxMined h status \<Rightarrow>
                            OnchainEndCycle h (buildExplorerTxLink cfg (Some h)) status now
                        | TxThrows msg \<Rightarrow> OnchainEndCycleError msg now)]
               else [])))"
proof -
  define rows where "rows = daily_rows (db st) High"
  note board = cycle_reads_Inr(5) [OF reads]
  have ws: "map e_wallet highEntries = map walletDaily rows"
    using getDailyLeaderboard_wallets [OF board] by (simp add: rows_def)
  have scores: "map e_score highEntries = map highScoreDaily rows"
    using getDailyLeaderboard_scores [OF board] by (simp add: rows_def daily_column_def)
  have "length (map e_wallet highEntries) = length (map walletDaily rows)" by (simp only: ws)
  then have len: "length highEntries =
       min 1000 (length (filter (\<lambda>row. highScoreDaily row > 0) (daily_player_stats (db st))))"
    by (simp add: rows_def daily_rows_def daily_column_def min.commute)
  have entries: "\<forall>e \<in> set highEntries.
        0 < e_score e \<and>
        (\<exists>row \<in> set (daily_player_stats (db st)).
           walletDaily row = e_wallet e \<and> highScoreDaily row = e_score e)"
    using getDailyLeaderboard_entries [OF board] by (simp add: daily_column_def)
  have ranked: "sorted_wrt (\<ge>) (map e_score highEntries)"
    using daily_rows_ranked [of High "db st"] by (simp add: scores rows_def daily_column_def)
  have dh: "distinct (map e_wallet highEntries)"
    by (rule getDailyLeaderboard_distinct [OF wallets board])
  have dt: "distinct (map e_wallet totalEntries)"
    by (rule getDailyLeaderboard_distinct [OF wallets cycle_reads_Inr(4) [OF reads]])
  have outside: "\<forall>row \<in> set (daily_player_stats (db st)).
        walletDaily row \<notin> set (take 3 (map e_wallet highEntries)) \<longrightarrow>
          (\<forall>e \<in> set (take 3 highEntries). highScoreDaily row \<le> e_score e)"
  proof (intro ballI impI)
    fix row e
    assume row: "row \<in> set (daily_player_stats (db st))"
      and out: "walletDaily row \<notin> set (take 3 (map e_wallet highEntries))"
      and e: "e \<in> set (take 3 highEntries)"
    have row_out: "row \<notin> set (take 3 rows)"
    proof
      assume "row \<in> set (take 3 rows)"
      then have "walletDaily row \<in> set (map walletDaily (take 3 rows))" by simp
      then show False using out by (simp add: ws take_map)
    qed
    from e have "e_score e \<in> set (map e_score (take 3 highEntries))" by simp
    moreover have "map e_score (take 3 highEntries) = map highScoreDaily (take 3 rows)"
      by (simp add: take_map [symmetric] scores)
    ultimately have "e_score e \<in> set (map highScoreDaily (take 3 rows))"
      by simp
    then obtain best where best: "best \<in> set (take 3 rows)" and eq: "highScoreDaily best = e_score e"
      by auto
    from daily_rows_top3_dominate [of row "db st" High best] row row_out best
    have "highScoreDaily row \<le> highScoreDaily best"
      by (simp add: rows_def daily_column_def)
    then show "highScoreDaily row \<le> e_score e" by (simp add: eq)
  qed
  define winners where
    "winners = new_Set (map fst (rewardTotalMap_of sumTotalScores (totalPool * (70 / 100)) totalEntries) @
                        map fst (rewardHighMap_of (totalPool * (25 / 100)) highEntries))"
  have top: "set (take 3 (map e_wallet highEntries)) \<subseteq> set winners"
    unfolding winners_def set_cycle_wallets [OF dt dh] using pool by simp
  have cycle: "let P = totalPool * (25 / 100);
          now = cycle_now env;
          run = runPayoutCycle cfg env st;
          shares = (case map e_wallet highEntries of
                      [] \<Rightarrow> []
                    | [a] \<Rightarrow> [(a, P)]
                    | [a, b] \<Rightarrow> [(a, P * (70 / 100)), (b, P * (30 / 100))]
                    | a # b # c # others \<Rightarrow>
                        [(a, P * (60 / 100)), (b, P * (25 / 100)), (c, P * (15 / 100))]);
          peak = (\<lambda>w. or_zero (map_of shares w));
          volume = (\<lambda>w. if 0 < sumTotalScores \<and> 0 < totalPool * (70 / 100)
                         then (case find (\<lambda>e. e_wallet e = w) totalEntries of
                                 None \<Rightarrow> 0
                               | Some e \<Rightarrow> e_score e / sumTotalScores * (totalPool * (70 / 100)))
                         else 0)
      in rewardHighMap_of P highEntries = shares \<and>
         (\<forall>w. w \<notin> set (take 3 (map e_wallet highEntries)) \<longrightarrow> peak w = 0) \<and>
         (\<exists>winners.
            distinct winners \<and>
            set (take 3 (map e_wallet highEntries)) \<subseteq> set winners \<and>
            effects run =
              effects st @
              map (\<lambda>w. AppendPayoutLog (RewardEntry w
                          (or_zero (map_option e_score (find (\<lambda>e. e_wallet e = w) totalEntries)))
                          (or_zero (map_option e_score (find (\<lambda>e. e_wallet e = w) highEntries)))
                          (toFixed6 env w (volume w + peak w)) now)) winners @
              [AppendPayoutLog (TreasuryEntry (toFixed6_treasury env (totalPool * (5 / 100))) now)] @
              (if ONCHAIN_CONFIGURED cfg
               then [EndCycleCall winners (map (\<lambda>w. toUnits env w (volume w + peak w)) winners),
                     AppendPayoutLog
                       (case settles env of
                          TxMined h status \<Rightarrow>
                            OnchainEndCycle h (buildExplorerTxLink cfg (Some h)) status now
                        | TxThrows msg \<Rightarrow> OnchainEndCycleError msg now)]
               else []))"
    unfolding Let_def
    apply (intro conjI)
    subgoal using rewardHighMap_of_explicit [OF dh, of "totalPool * (25 / 100)"] pool by simp
    subgoal
    proof (intro allI impI)
      fix w
      assume "w \<notin> set (take 3 (map e_wallet highEntries))"
      from outside_top3_unrewarded [OF this]
      show "or_zero (map_of (case map e_wallet highEntries of
          [] \<Rightarrow> []
        | [a] \<Rightarrow> [(a, totalPool * (25 / 100))]
        | [a, b] \<Rightarrow> [(a, totalPool * (25 / 100) * (70 / 100)),
                      (b, totalPool * (25 / 100) * (30 / 100))]
        | a # b # c # others \<Rightarrow>
            [(a, totalPool * (25 / 100) * (60 / 100)),
             (b, totalPool * (25 / 100) * (25 / 100)),
             (c, totalPool * (25 / 100) * (15 / 100))]) w) = 0"
        by (simp add: or_zero_simps)
    qed
    subgoal
      apply (rule exI [of _ winners])
      apply (intro conjI)
      subgoal by (simp add: winners_def distinct_new_Set)
      subgoal by (rule top)
      subgoal
        unfolding runPayoutCycle_run(1) [OF reads] audit_lines_def entry_score_def
          reward_of_explicit [OF dt dh] winners_def if_P [OF pool]
        by (simp add: comp_def)
      done
    done
  from len entries dh ranked outside cycle show ?thesis by (intro conjI)
qed

lemma four_players_reads:
  "cycle_reads settled_cycle (db four_players_server) =
     Inr (400, 120, 100,
       [\<lparr>e_rank = 1, e_wallet = ''0xC'', e_score = 50, e_gamesPlayed = 2, e_lastPlayed = 5300\<rparr>,
        \<lparr>e_rank = 2, e_wallet = ''0xB'', e_score = 40, e_gamesPlayed = 1, e_lastPlayed = 5200\<rparr>,
        \<lparr>e_rank = 3, e_wallet = ''0xD'', e_score = 20, e_gamesPlayed = 1, e_lastPlayed = 5400\<rparr>,
        \<lparr>e_rank = 4, e_wallet = ''0xA'', e_score = 10, e_gamesPlayed = 1, e_lastPlayed = 5100\<rparr>],
       [\<lparr>e_rank = 1, e_wallet = ''0xB'', e_score = 40, e_gamesPlayed = 1, e_lastPlayed = 5200\<rparr>,
        \<lparr>e_rank = 2, e_wallet = ''0xC'', e_score = 30, e_gamesPlayed = 2, e_lastPlayed = 5300\<rparr>,
        \<lparr>e_rank = 3, e_wallet = ''0xD'', e_score = 20, e_gamesPlayed = 1, e_lastPlayed = 5400\<rparr>,
        \<lparr>e_rank = 4, e_wallet = ''0xA'', e_score = 10, e_gamesPlayed = 1, e_lastPlayed = 5100\<rparr>])"
  by (simp add: four_players_server_def empty_server_def read_eval_defs four_players_db_def)

lemma four_players_effects:
  "effects (runPayoutCycle production settled_cycle four_players_server) =
     [AppendPayoutLog (RewardEntry ''0xC'' 50 30 141666667 86401000),
      AppendPayoutLog (RewardEntry ''0xB'' 40 40 153333333 86401000),
      AppendPayoutLog (RewardEntry ''0xD'' 20 20 61666667 86401000),
      AppendPayoutLog (RewardEntry ''0xA'' 10 10 23333333 86401000),
      AppendPayoutLog (TreasuryEntry 20000000 86401000),
      EndCycleCall [''0xC'', ''0xB'', ''0xD'', ''0xA''] [141666667, 153333333, 61666667, 23333333],
      AppendPayoutLog (OnchainEndCycle ''0xfeed'' (Some ''https://sepolia.basescan.org/tx/0xfeed'')
                         (Some 1) 86401000)]"
  unfolding runPayoutCycle_def four_players_reads sum.case prod.case
  by (simp add: four_players_server_def empty_server_def run_eval_defs four_players_db_def)

text \<open>
  The amended claim on four players with daily highs 10, 40, 30 and 20 and a fee pool of
  400: of the peak pool of 100, 60, 25 and 15 go to the highs of 40, 30 and 20, and the
  high of 10 gets its volume share only.
\<close>

theorem peak_shares_of_cycle_witness:
  "distinct (map walletDaily (daily_player_stats (db four_players_server))) \<and>
   cycle_reads settled_cycle (db four_players_server) =
     Inr (400, 120, 100,
       [\<lparr>e_rank = 1, e_wallet = ''0xC'', e_score = 50, e_gamesPlayed = 2, e_lastPlayed = 5300\<rparr>,
        \<lparr>e_rank = 2, e_wallet = ''0xB'', e_score = 40, e_gamesPlayed = 1, e_lastPlayed = 5200\<rparr>,
        \<lparr>e_rank = 3, e_wallet = ''0xD'', e_score = 20, e_gamesPlayed = 1, e_lastPlayed = 5400\<rparr>,
        \<lparr>e_rank = 4, e_wallet = ''0xA'', e_score = 10, e_gamesPlayed = 1, e_lastPlayed = 5100\<rparr>],
       [\<lparr>e_rank = 1, e_wallet = ''0xB'', e_score = 40, e_gamesPlayed = 1, e_lastPlayed = 5200\<rparr>,
        \<lparr>e_rank = 2, e_wallet = ''0xC'', e_score = 30, e_gamesPlayed = 2, e_lastPlayed = 5300\<rparr>,
        \<lparr>e_rank = 3, e_wallet = ''0xD'', e_score = 20, e_gamesPlayed = 1, e_lastPlayed = 5400\<rparr>,
        \<lparr>e_rank = 4, e_wallet = ''0xA'', e_score = 10, e_gamesPlayed = 1, e_lastPlayed = 5100\<rparr>]) \<and>
   (0 :: number) < 400 * (25 / 100) \<and>
   rewardHighMap_of (400 * (25 / 100))
       [\<lparr>e_rank = 1, e_wallet = ''0xB'', e_score = 40, e_gamesPlayed = 1, e_lastPlayed = 5200\<rparr>,
        \<lparr>e_rank = 2, e_wallet = ''0xC'', e_score = 30, e_gamesPlayed = 2, e_lastPlayed = 5300\<rparr>,
        \<lparr>e_rank = 3, e_wallet = ''0xD'', e_score = 20, e_gamesPlayed = 1, e_lastPlayed = 5400\<rparr>,
        \<lparr>e_rank = 4, e_wallet = ''0xA'', e_score = 10, e_gamesPlayed = 1, e_lastPlayed = 5100\<rparr>] =
     [(''0xB'', 60), (''0xC'', 25), (''0xD'', 15)] \<and>
   effects (runPayoutCycle production settled_cycle four_players_server) =
     [AppendPayoutLog (RewardEntry ''0xC'' 50 30 141666667 86401000),
      AppendPayoutLog (RewardEntry ''0xB'' 40 40 153333333 86401000),
      AppendPayoutLog (RewardEntry ''0xD'' 20 20 61666667 86401000),
      AppendPayoutLog (RewardEntry ''0xA'' 10 10 23333333 86401000),
      AppendPayoutLog (TreasuryEntry 20000000 86401000),
      EndCycleCall [''0xC'', ''0xB'', ''0xD'', ''0xA''] [141666667, 153333333, 61666667, 23333333],
      AppendPayoutLog (OnchainEndCycle ''0xfeed'' (Some ''https://sepolia.basescan.org/tx/0xfeed'')
                         (Some 1) 86401000)]"
proof -
  have d: "distinct (map walletDaily (daily_player_stats (db four_players_server)))"
    by (simp add: four_players_server_def four_players_db_def)
  have p: "(0 :: number) < 400 * (25 / 100)" by simp
  note run = peak_shares_of_cycle [OF d four_players_reads p, where cfg = production,
      unfolded Let_def]
  from run have shares: "rewardHighMap_of (400 * (25 / 100))
       [\<lparr>e_rank = 1, e_wallet = ''0xB'', e_score = 40, e_gamesPlayed = 1, e_lastPlayed = 5200\<rparr>,
        \<lparr>e_rank = 2, e_wallet = ''0xC'', e_score = 30, e_gamesPlayed = 2, e_lastPlayed = 5300\<rparr>,
        \<lparr>e_rank = 3, e_wallet = ''0xD'', e_score = 20, e_gamesPlayed = 1, e_lastPlayed = 5400\<rparr>,
        \<lparr>e_rank = 4, e_wallet = ''0xA'', e_score = 10, e_gamesPlayed = 1, e_lastPlayed = 5100\<rparr>] =
     [(''0xB'', 60), (''0xC'', 25), (''0xD'', 15)]"
    by (elim conjE) simp
  from d four_players_reads p shares four_players_effects show ?thesis by (intro conjI)
qed

text \<open>
  Claim C5 as stated fails in a cycle one of whose reads is rejected. With two players
  whose daily scores are \<open>2^62\<close> each, the sum of the daily totals leaves the 64-bit
  range, \<open>getDailyScoresSum('total')\<close> rejects, and the cycle stops there: the peak pool
  is \<open>0.75\<close> and the board of daily highs has two qualifiers, but no line is handed
  over and no settlement call is made.
\<close>

theorem overflowing_sum_stops_cycle_counterexample:
  "distinct (map walletDaily (daily_player_stats (db overflow_server))) \<and>
   getTotalEntryFeesSince True (db overflow_server) (cycle_now settled_cycle - 24 * 60 * 60 * 1000) =
     Inr 3 \<and>
   (0 :: number) < 3 * (25 / 100) \<and>
   getDailyLeaderboard True (db overflow_server) High 1000 =
     Inr [\<lparr>e_rank = 1, e_wallet = ''0xA'', e_score = 4611686018427387904, e_gamesPlayed = 1,
           e_lastPlayed = 5500\<rparr>,
          \<lparr>e_rank = 2, e_wallet = ''0xB'', e_score = 4611686018427387904, e_gamesPlayed = 1,
           e_lastPlayed = 6500\<rparr>] \<and>
   getDailyScoresSum True (db overflow_server) Total = Inl SqliteError \<and>
   cycle_reads settled_cycle (db overflow_server) = Inl SqliteError \<and>
   runPayoutCycle production settled_cycle overflow_server = overflow_server \<and>
   effects overflow_server = []"
proof -
  have reads: "cycle_reads settled_cycle (db overflow_server) = Inl SqliteError"
    by (simp add: overflow_server_def empty_server_def read_eval_defs overflow_db_def)
  have run: "runPayoutCycle production settled_cycle overflow_server = overflow_server"
    unfolding runPayoutCycle_def reads by simp
  show ?thesis
    unfolding run reads
    by (simp add: overflow_server_def empty_server_def read_eval_defs overflow_db_def)
qed

section \<open>Volume shares and the limit of the board\<close>

lemma crowd_positive: "filter (\<lambda>row. daily_column type row > 0) (crowd n) = crowd n"
  by (cases type) (simp_all add: crowd_def daily_column_def filter_map comp_def)

lemma crowd_sorted: "sort_key (\<lambda>row. - daily_column type row) (crowd n) = crowd n"
  by (rule sort_key_constant [where c = "- 1"])
    (cases type; auto simp: crowd_def daily_column_def)

lemma take_crowd: "m \<le> n \<Longrightarrow> take m (crowd n) = crowd m"
  by (simp add: crowd_def take_map min_def)

lemma distinct_crowd: "distinct (map walletDaily (crowd n))"
proof -
  have "inj_on (\<lambda>i. replicate (Suc i) (CHR ''w'')) (set [0..<n])"
  proof (rule inj_onI)
    fix i j
    assume "replicate (Suc i) (CHR ''w'') = replicate (Suc j) (CHR ''w'')"
    then have "length (replicate (Suc i) (CHR ''w'')) = length (replicate (Suc j) (CHR ''w''))"
      by (rule arg_cong)
    then show "i = j" by simp
  qed
  then have "distinct (map (\<lambda>i. replicate (Suc i) (CHR ''w'')) [0..<n])"
    by (simp add: distinct_map)
  then show ?thesis by (simp add: crowd_def comp_def)
qed

lemma daily_rows_crowded: "daily_rows crowded_db type = crowd 1000"
  by (simp add: daily_rows_def crowded_db_def crowd_positive crowd_sorted take_crowd)

lemma sum_crowd: "sum_list (map (daily_column type) (crowd n)) = of_nat n"
  by (cases type) (simp_all add: crowd_def daily_column_def comp_def sum_list_triv)

lemma column_crowd: "map (daily_column type) (crowd n) = replicate n 1"
  by (cases type) (simp_all add: crowd_def daily_column_def comp_def map_replicate_const)

lemma crowded_sum: "getDailyScoresSum True crowded_db type = Inr 1001"
proof -
  have vs: "map (daily_column type) (filter (\<lambda>row. daily_column type row > 0) (crowd 1001)) =
            replicate 1001 1"
    by (simp only: crowd_positive column_crowd)
  have int: "stored_as_integer 1" by (simp add: stored_as_integer_def)
  have "\<not> sum_overflows (replicate 1001 1)"
    by (simp add: sum_overflows_def takeWhile_replicate int sum_list_replicate)
  with vs show ?thesis
    by (cases type)
      (simp_all add: getDailyScoresSum_def daily_column_def crowded_db_def or_zero_def
        sum_list_replicate)
qed

lemma crowded_reads:
  "\<exists>totalEntries highEntries.
     cycle_reads settled_cycle (db crowded_server) = Inr (10010, 1001, 1001, totalEntries, highEntries) \<and>
     map (\<lambda>e. (e_wallet e, e_score e)) totalEntries =
       map (\<lambda>row. (walletDaily row, 1)) (crowd 1000) \<and>
     map (\<lambda>e. (e_wallet e, e_score e)) highEntries =
       map (\<lambda>row. (walletDaily row, 1)) (crowd 1000)"
proof -
  obtain totalEntries where t: "getDailyLeaderboard True crowded_db Total 1000 = Inr totalEntries"
    by (simp add: getDailyLeaderboard_def Let_def)
  obtain highEntries where h: "getDailyLeaderboard True crowded_db High 1000 = Inr highEntries"
    by (simp add: getDailyLeaderboard_def Let_def)
  have one: "map (\<lambda>row. (walletDaily row, daily_column type row)) (crowd 1000) =
             map (\<lambda>row. (walletDaily row, 1)) (crowd 1000)" for type
    by (cases type) (simp_all add: crowd_def daily_column_def)
  have fees: "getTotalEntryFeesSince True crowded_db 1000 = Inr 10010"
    by (simp add: getTotalEntryFeesSince_def crowded_db_def or_zero_def)
  have "cycle_reads settled_cycle (db crowded_server) =
          Inr (10010, 1001, 1001, totalEntries, highEntries)"
    by (simp add: cycle_reads_def settled_cycle_def crowded_server_def empty_server_def
        fees crowded_sum t h)
  moreover have "map (\<lambda>e. (e_wallet e, e_score e)) totalEntries =
       map (\<lambda>row. (walletDaily row, 1)) (crowd 1000)"
    using getDailyLeaderboard_pairs [OF t] by (simp only: daily_rows_crowded one)
  moreover have "map (\<lambda>e. (e_wallet e, e_score e)) highEntries =
       map (\<lambda>row. (walletDaily row, 1)) (crowd 1000)"
    using getDailyLeaderboard_pairs [OF h] by (simp only: daily_rows_crowded one)
  ultimately show ?thesis by blast
qed

lemma map_of_constant:
  "w \<in> set (map k es) \<Longrightarrow> map_of (map (\<lambda>e. (k e, c)) es) w = Some c"
  by (induction es) auto

lemma case_three_or_more:
  assumes "3 \<le> length ws"
  shows "(case ws of [] \<Rightarrow> x | [a] \<Rightarrow> f1 a | [a, b] \<Rightarrow> f2 a b | a # b # c # others \<Rightarrow> f3 a b c) =
         f3 (ws ! 0) (ws ! 1) (ws ! 2)"
proof -
  from assms obtain a b c others where "ws = a # b # c # others"
    by (cases ws; cases "tl ws"; cases "tl (tl ws)") auto
  then show ?thesis by simp
qed

lemma crowded_winners_and_rewards:
  assumes reads: "cycle_reads settled_cycle (db crowded_server) =
                    Inr (10010, 1001, 1001, totalEntries, highEntries)"
    and pt: "map (\<lambda>e. (e_wallet e, e_score e)) totalEntries =
               map (\<lambda>row. (walletDaily row, 1)) (crowd 1000)"
    and ph: "map (\<lambda>e. (e_wallet e, e_score e)) highEntries =
               map (\<lambda>row. (walletDaily row, 1)) (crowd 1000)"
  shows "new_Set (map fst (rewardTotalMap_of 1001 (10010 * (70 / 100)) totalEntries) @
                  map fst (rewardHighMap_of (10010 * (25 / 100)) highEntries)) =
           map walletDaily (crowd 1000)"
    and "map (\<lambda>w. nearest_millionth
                    (reward_of (rewardTotalMap_of 1001 (10010 * (70 / 100)) totalEntries)
                       (rewardHighMap_of (10010 * (25 / 100)) highEntries) w))
           (map walletDaily (crowd 1000)) =
         [1508500000, 632625000, 382375000] @ replicate 997 7000000"
    and "sum_list (map snd (rewardTotalMap_of 1001 (10010 * (70 / 100)) totalEntries)) = 7000"
    and "map_of (rewardTotalMap_of 1001 (10010 * (70 / 100)) totalEntries)
           (replicate 1001 (CHR ''w'')) = None"
proof -
  define wal where "wal i = replicate (Suc i) (CHR ''w'')" for i :: nat
  have inj: "wal i = wal j \<longleftrightarrow> i = j" for i j
  proof
    assume "wal i = wal j"
    then have "length (wal i) = length (wal j)" by (rule arg_cong)
    then show "i = j" by (simp add: wal_def)
  qed simp
  have W: "map walletDaily (crowd n) = map wal [0..<n]" for n
    by (simp add: crowd_def comp_def wal_def)
  from pt have "map fst (map (\<lambda>e. (e_wallet e, e_score e)) totalEntries) =
                map fst (map (\<lambda>row. (walletDaily row, 1 :: number)) (crowd 1000))"
    by simp
  then have wt: "map e_wallet totalEntries = map wal [0..<1000]"
    by (simp add: comp_def W [symmetric])
  from ph have "map fst (map (\<lambda>e. (e_wallet e, e_score e)) highEntries) =
                map fst (map (\<lambda>row. (walletDaily row, 1 :: number)) (crowd 1000))"
    by simp
  then have wh: "map e_wallet highEntries = map wal [0..<1000]"
    by (simp add: comp_def W [symmetric])
  have dt: "distinct (map e_wallet totalEntries)"
    unfolding wt W [symmetric] by (rule distinct_crowd)
  have dh: "distinct (map e_wallet highEntries)"
    unfolding wh W [symmetric] by (rule distinct_crowd)
  have "rewardTotalMap_of 1001 (10010 * (70 / 100)) totalEntries =
          map (\<lambda>p. (fst p, snd p / 1001 * (10010 * (70 / 100))))
            (map (\<lambda>e. (e_wallet e, e_score e)) totalEntries)"
    by (simp add: rewardTotalMap_of_explicit [OF dt] comp_def)
  then have rtm: "rewardTotalMap_of 1001 (10010 * (70 / 100)) totalEntries =
          map (\<lambda>i. (wal i, 7)) [0..<1000]"
    by (simp add: pt crowd_def comp_def wal_def)
  have len: "3 \<le> length (map e_wallet highEntries)" by (simp add: wh)
  have rhm: "rewardHighMap_of (10010 * (25 / 100)) highEntries =
          [(wal 0, 3003 / 2), (wal 1, 5005 / 8), (wal 2, 3003 / 8)]"
    unfolding rewardHighMap_of_explicit [OF dh] case_three_or_more [OF len]
    by (simp add: wh inj)
  show keys: "new_Set (map fst (rewardTotalMap_of 1001 (10010 * (70 / 100)) totalEntries) @
                  map fst (rewardHighMap_of (10010 * (25 / 100)) highEntries)) =
           map walletDaily (crowd 1000)"
    unfolding rtm rhm W
  proof -
    have "new_Set (map wal [0..<1000] @ [wal 0, wal 1, wal 2]) = map wal [0..<1000]"
    proof (rule new_Set_distinct_append)
      show "distinct (map wal [0..<1000])" unfolding W [symmetric] by (rule distinct_crowd)
      show "set [wal 0, wal 1, wal 2] \<subseteq> set (map wal [0..<1000])" by simp
    qed
    then show "new_Set (map fst (map (\<lambda>i. (wal i, 7 :: number)) [0..<1000]) @
                   map fst [(wal 0, 3003 / 2 :: number), (wal 1, 5005 / 8), (wal 2, 3003 / 8)]) =
          map wal [0..<1000]"
      by (simp add: comp_def)
  qed
  have volume: "map_of (map (\<lambda>i. (wal i, 7 :: number)) [0..<1000]) (wal i) = Some 7"
    if "i < 1000" for i
    by (rule map_of_constant) (use that in simp)
  have reward: "nearest_millionth
                  (reward_of (map (\<lambda>i. (wal i, 7)) [0..<1000])
                     [(wal 0, 3003 / 2), (wal 1, 5005 / 8), (wal 2, 3003 / 8)] (wal i)) =
                ([1508500000, 632625000, 382375000] @ replicate 997 7000000) ! i"
    if "i < 1000" for i
  proof -
    consider "i = 0" | "i = 1" | "i = 2" | "3 \<le> i" by linarith
    then show ?thesis
    proof cases
      case 1
      then show ?thesis
        by (simp add: reward_of_def volume or_zero_def nearest_millionth_def floor_rat_numeral)
    next
      case 2
      then show ?thesis
        using volume [of 1]
        by (simp add: reward_of_def or_zero_def nearest_millionth_def inj floor_rat_numeral)
    next
      case 3
      then show ?thesis
        using volume [of 2]
        by (simp add: reward_of_def or_zero_def nearest_millionth_def inj floor_rat_numeral
            nth_append)
    next
      case 4
      then show ?thesis
        using volume [OF that] that
        by (simp add: reward_of_def or_zero_def nearest_millionth_def inj nth_append
            floor_rat_numeral)
    qed
  qed
  show "map (\<lambda>w. nearest_millionth
                    (reward_of (rewardTotalMap_of 1001 (10010 * (70 / 100)) totalEntries)
                       (rewardHighMap_of (10010 * (25 / 100)) highEntries) w))
           (map walletDaily (crowd 1000)) =
         [1508500000, 632625000, 382375000] @ replicate 997 7000000"
    unfolding rtm rhm W
  proof (rule nth_equalityI)
    let ?F = "\<lambda>w. nearest_millionth
                    (reward_of (map (\<lambda>i. (wal i, 7)) [0..<1000])
                       [(wal 0, 3003 / 2), (wal 1, 5005 / 8), (wal 2, 3003 / 8)] w)"
    show "length (map ?F (map wal [0..<1000])) =
          length ([1508500000, 632625000, 382375000] @ replicate 997 (7000000 :: int))"
      by simp
    fix i
    assume "i < length (map ?F (map wal [0..<1000]))"
    then have i: "i < 1000" by simp
    then have a: "map ?F (map wal [0..<1000]) ! i = ?F (wal i)"
      by (simp only: nth_map length_map length_upt nth_upt minus_nat.diff_0 add_0)
    show "map ?F (map wal [0..<1000]) ! i =
          ([1508500000, 632625000, 382375000] @ replicate 997 7000000) ! i"
      unfolding a by (rule reward [OF i])
  qed
  show "sum_list (map snd (rewardTotalMap_of 1001 (10010 * (70 / 100)) totalEntries)) = 7000"
    unfolding rtm by (simp add: comp_def sum_list_triv)
  have "wal 1000 \<notin> fst ` set (map (\<lambda>i. (wal i, 7 :: number)) [0..<1000])"
    by (auto simp: inj)
  then show "map_of (rewardTotalMap_of 1001 (10010 * (70 / 100)) totalEntries)
           (replicate 1001 (CHR ''w'')) = None"
    unfolding rtm by (simp add: map_of_eq_None_iff wal_def)
qed

text \<open>
  Claim C6 fails on a day of 1001 players with one point each and a fee pool of 10010,
  so a volume pool of 7007 and, by the claim, a volume share of 7 for each of the 1001.
  The cycle divides by the sum of all 1001 totals, which \<open>getDailyScoresSum('total')\<close> reads
  without a limit, and hands shares to the rows of \<open>getDailyLeaderboard('total', 1000)\<close>,
  which is cut at 1000: the settlement call names 1000 wallets, the player stored last is
  not among them and has no volume share, the volume shares add up to 7000, and of the
  9509.5 allocated to players 9502.5 are paid.
\<close>

theorem board_limit_leaves_volume_pool_unpaid:
  "length (daily_player_stats (db crowded_server)) = 1001 \<and>
   distinct (map walletDaily (daily_player_stats (db crowded_server))) \<and>
   last (daily_player_stats (db crowded_server)) =
     \<lparr>walletDaily = replicate 1001 (CHR ''w''), totalScoreDaily = 1, highScoreDaily = 1,
      gamesPlayedDaily = 1, lastPlayedDaily = 0\<rparr> \<and>
   (\<exists>totalEntries highEntries.
      cycle_reads settled_cycle (db crowded_server) =
        Inr (10010, 1001, 1001, totalEntries, highEntries) \<and>
      length totalEntries = 1000 \<and>
      sum_list (map snd (rewardTotalMap_of 1001 (10010 * (70 / 100)) totalEntries)) = 7000 \<and>
      map_of (rewardTotalMap_of 1001 (10010 * (70 / 100)) totalEntries)
        (replicate 1001 (CHR ''w'')) = None) \<and>
   (10010 :: number) * (70 / 100) = 7007 \<and>
   (1 :: number) / 1001 * 7007 = 7 \<and>
   (\<exists>lines. length lines = 1001 \<and>
      effects (runPayoutCycle production settled_cycle crowded_server) =
        map AppendPayoutLog lines @
        [EndCycleCall (map walletDaily (crowd 1000))
           ([1508500000, 632625000, 382375000] @ replicate 997 7000000),
         AppendPayoutLog (OnchainEndCycle ''0xfeed'' (Some ''https://sepolia.basescan.org/tx/0xfeed'')
                            (Some 1) 86401000)]) \<and>
   replicate 1001 (CHR ''w'') \<notin> set (map walletDaily (crowd 1000)) \<and>
   sum_list ([1508500000, 632625000, 382375000] @ replicate 997 (7000000 :: int)) = 9502500000 \<and>
   nearest_millionth (10010 * (70 / 100) + 10010 * (25 / 100)) = 9509500000"
proof -
  have len: "length (daily_player_stats (db crowded_server)) = 1001"
    by (simp add: crowded_server_def empty_server_def crowded_db_def crowd_def)
  have d: "distinct (map walletDaily (daily_player_stats (db crowded_server)))"
    by (simp add: crowded_server_def empty_server_def crowded_db_def distinct_crowd)
  have "last (crowd (Suc 1000)) =
     \<lparr>walletDaily = replicate 1001 (CHR ''w''), totalScoreDaily = 1, highScoreDaily = 1,
      gamesPlayedDaily = 1, lastPlayedDaily = 0\<rparr>"
    unfolding crowd_def by (simp only: upt_Suc_append le0 map_append last_snoc list.map if_True) simp
  then have l: "last (daily_player_stats (db crowded_server)) =
     \<lparr>walletDaily = replicate 1001 (CHR ''w''), totalScoreDaily = 1, highScoreDaily = 1,
      gamesPlayedDaily = 1, lastPlayedDaily = 0\<rparr>"
    by (simp add: crowded_server_def empty_server_def crowded_db_def)
  from crowded_reads obtain totalEntries highEntries where
    reads: "cycle_reads settled_cycle (db crowded_server) =
              Inr (10010, 1001, 1001, totalEntries, highEntries)" and
    pt: "map (\<lambda>e. (e_wallet e, e_score e)) totalEntries =
           map (\<lambda>row. (walletDaily row, 1)) (crowd 1000)" and
    ph: "map (\<lambda>e. (e_wallet e, e_score e)) highEntries =
           map (\<lambda>row. (walletDaily row, 1)) (crowd 1000)"
    by blast
  note facts = crowded_winners_and_rewards [OF reads pt ph]
  from pt have "length (map (\<lambda>e. (e_wallet e, e_score e)) totalEntries) =
                length (map (\<lambda>row. (walletDaily row, 1 :: number)) (crowd 1000))"
    by (rule arg_cong)
  then have lt: "length totalEntries = 1000" by (simp add: crowd_def)
  have board: "\<exists>totalEntries highEntries.
      cycle_reads settled_cycle (db crowded_server) =
        Inr (10010, 1001, 1001, totalEntries, highEntries) \<and>
      length totalEntries = 1000 \<and>
      sum_list (map snd (rewardTotalMap_of 1001 (10010 * (70 / 100)) totalEntries)) = 7000 \<and>
      map_of (rewardTotalMap_of 1001 (10010 * (70 / 100)) totalEntries)
        (replicate 1001 (CHR ''w'')) = None"
    using reads lt facts(3,4) by (intro exI conjI)
  define lines where
    "lines = audit_lines (toFixed6 settled_cycle) (toFixed6_treasury settled_cycle)
               (cycle_now settled_cycle) (10010 * (5 / 100)) totalEntries highEntries
               (rewardTotalMap_of 1001 (10010 * (70 / 100)) totalEntries)
               (rewardHighMap_of (10010 * (25 / 100)) highEntries)
               (map walletDaily (crowd 1000))"
  have ll: "length lines = 1001" by (simp add: lines_def audit_lines_def crowd_def)
  have env: "toUnits settled_cycle = (\<lambda>w. nearest_millionth)" "cycle_now settled_cycle = 86401000"
    "settles settled_cycle = TxMined ''0xfeed'' (Some 1)"
    by (simp_all add: settled_cycle_def)
  have eff: "effects (runPayoutCycle production settled_cycle crowded_server) =
        map AppendPayoutLog lines @
        [EndCycleCall (map walletDaily (crowd 1000))
           ([1508500000, 632625000, 382375000] @ replicate 997 7000000),
         AppendPayoutLog (OnchainEndCycle ''0xfeed'' (Some ''https://sepolia.basescan.org/tx/0xfeed'')
                            (Some 1) 86401000)]"
    unfolding runPayoutCycle_run(1) [OF reads] facts(1) env facts(2)
    by (simp add: lines_def env crowded_server_def empty_server_def production_def
        buildExplorerTxLink_def)
  have run: "\<exists>lines. length lines = 1001 \<and>
      effects (runPayoutCycle production settled_cycle crowded_server) =
        map AppendPayoutLog lines @
        [EndCycleCall (map walletDaily (crowd 1000))
           ([1508500000, 632625000, 382375000] @ replicate 997 7000000),
         AppendPayoutLog (OnchainEndCycle ''0xfeed'' (Some ''https://sepolia.basescan.org/tx/0xfeed'')
                            (Some 1) 86401000)]"
    using ll eff by (intro exI conjI)
  have out: "replicate 1001 (CHR ''w'') \<notin> set (map walletDaily (crowd 1000))"
  proof
    assume "replicate 1001 (CHR ''w'') \<in> set (map walletDaily (crowd 1000))"
    then obtain i where "i < 1000" and "replicate 1001 (CHR ''w'') = replicate (Suc i) (CHR ''w'')"
      by (auto simp: crowd_def)
    then have "length (replicate 1001 (CHR ''w'')) = length (replicate (Suc i) (CHR ''w''))"
      by simp
    with \<open>i < 1000\<close> show False by simp
  qed
  have a1: "(10010 :: number) * (70 / 100) = 7007" by simp
  have a2: "(1 :: number) / 1001 * 7007 = 7" by simp
  have a3: "sum_list ([1508500000, 632625000, 382375000] @ replicate 997 (7000000 :: int)) = 9502500000"
    by (simp add: sum_list_replicate)
  have a4: "nearest_millionth (10010 * (70 / 100) + 10010 * (25 / 100)) = 9509500000"
    by (simp add: nearest_millionth_def floor_rat_numeral)
  from len d l board a1 a2 run out a3 a4 show ?thesis by (intro conjI)
qed

section \<open>The journal, the settlement and the reset\<close>

text \<open>
  Claim C9, as amended. In a payout cycle over a daily table with one row per wallet,
  when the five database reads succeed the server calls \<open>appendPayoutLog\<close> once for each
  rewarded wallet, with the wallet, its daily scores and \<open>toFixed(6)\<close> of its reward
  (volume share plus peak share), and once for the treasury amount, and only then makes
  the one settlement call, which receives the same wallets and \<open>Math.round\<close> of the same
  rewards in millionths. \<open>appendPayoutLog\<close> hands its line to \<open>fs.appendFile\<close> without
  waiting for the write, and a failed write is only printed: after the run the journal
  holds what it held before and, of the lines handed over, exactly those whose writes
  succeeded. The amount in a line and the amount paid are two roundings of one reward.
  Whether the settlement call returns or throws, it is made once, one more line (the
  transaction or the error) is handed over in the same way, and the run goes on to the
  reset: when the reset statement succeeds, the daily total, the daily high and the
  games of every daily row are 0, wallets, last-played times, lifetime rows and fees are
  as before, and \<open>lastPayoutAt\<close> and \<open>nextPayoutAt\<close> are the time of the run and
  24 hours later; when it fails, the store and the clock are as before. A cycle one of
  whose reads is rejected changes nothing.
\<close>

theorem cycle_hands_lines_over_then_settles_once:
  assumes wallets: "distinct (map walletDaily (daily_player_stats (db st)))"
  shows
    "case cycle_reads env (db st) of
       Inl e \<Rightarrow> runPayoutCycle cfg env st = st
     | Inr (totalPool, sumTotalScores, sumHighScores, totalEntries, highEntries) \<Rightarrow>
         (let now = cycle_now env;
              run = runPayoutCycle cfg env st;
              volume = (\<lambda>w. if 0 < sumTotalScores \<and> 0 < totalPool * (70 / 100)
                             then (case find (\<lambda>e. e_wallet e = w) totalEntries of
                                     None \<Rightarrow> 0
                                   | Some e \<Rightarrow> e_score e / sumTotalScores * (totalPool * (70 / 100)))
                             else 0);
              peak = (\<lambda>w. if 0 < totalPool * (25 / 100)
                           then or_zero (map_of
                                  (case map e_wallet highEntries of
                                     [] \<Rightarrow> []
                                   | [a] \<Rightarrow> [(a, totalPool * (25 / 100))]
                                   | [a, b] \<Rightarrow> [(a, totalPool * (25 / 100) * (70 / 100)),
                                                 (b, totalPool * (25 / 100) * (30 / 100))]
                                   | a # b # c # others \<Rightarrow>
                                       [(a, totalPool * (25 / 100) * (60 / 100)),
                                        (b, totalPool * (25 / 100) * (25 / 100)),
                                        (c, totalPool * (25 / 100) * (15 / 100))]) w)
                           else 0);
              settlement_line =
                (case settles env of
                   TxMined h status \<Rightarrow> OnchainEndCycle h (buildExplorerTxLink cfg (Some h)) status now
                 | TxThrows msg \<Rightarrow> OnchainEndCycleError msg now)
          in \<exists>winners.
               distinct winners \<and>
               set winners =
                 (if 0 < sumTotalScores \<and> 0 < totalPool * (70 / 100)
                  then set (map e_wallet totalEntries) else {}) \<union>
                 (if 0 < totalPool * (25 / 100)
                  then set (take 3 (map e_wallet highEntries)) else {}) \<and>
               (let lines =
                      map (\<lambda>w. RewardEntry w
                                 (or_zero (map_option e_score (find (\<lambda>e. e_wallet e = w) totalEntries)))
                                 (or_zero (map_option e_score (find (\<lambda>e. e_wallet e = w) highEntries)))
                                 (toFixed6 env w (volume w + peak w)) now) winners
                      @ [TreasuryEntry (toFixed6_treasury env (totalPool * (5 / 100))) now]
                in effects run =
                     effects st @ map AppendPayoutLog lines @
                     (if ONCHAIN_CONFIGURED cfg
                      then [EndCycleCall winners (map (\<lambda>w. toUnits env w (volume w + peak w)) winners),
                            AppendPayoutLog settlement_line]
                      else []) \<and>
                   payouts_log run =
                     payouts_log st +
                     mset (nths (lines @ (if ONCHAIN_CONFIGURED cfg then [settlement_line] else []))
                             {i. write_ok env i}) \<and>
                   (if reset_ok env
                    then player_stats (db run) = player_stats (db st) \<and>
                         entry_fees (db run) = entry_fees (db st) \<and>
                         map walletDaily (daily_player_stats (db run)) =
                           map walletDaily (daily_player_stats (db st)) \<and>
                         map lastPlayedDaily (daily_player_stats (db run)) =
                           map lastPlayedDaily (daily_player_stats (db st)) \<and>
                         map totalScoreDaily (daily_player_stats (db run)) =
                           replicate (length (daily_player_stats (db st))) 0 \<and>
                         map highScoreDaily (daily_player_stats (db run)) =
                           replicate (length (daily_player_stats (db st))) 0 \<and>
                         map gamesPlayedDaily (daily_player_stats (db run)) =
                           replicate (length (daily_player_stats (db st))) 0 \<and>
                         lastPayoutAt run = now \<and>
                         nextPayoutAt run = now + 24 * 60 * 60 * 1000
                    else db run = db st \<and>
                         lastPayoutAt run = lastPayoutAt st \<and>
                         nextPayoutAt run = nextPayoutAt st)))"
proof (cases "cycle_reads env (db st)")
  case (Inl e)
  then show ?thesis by (simp add: runPayoutCycle_def)
next
  case (Inr r)
  obtain totalPool sumTotalScores sumHighScores totalEntries highEntries
    where r: "r = (totalPool, sumTotalScores, sumHighScores, totalEntries, highEntries)"
    by (cases r)
  have reads: "cycle_reads env (db st) =
                 Inr (totalPool, sumTotalScores, sumHighScores, totalEntries, highEntries)"
    using Inr r by simp
  have dt: "distinct (map e_wallet totalEntries)"
    by (rule getDailyLeaderboard_distinct [OF wallets cycle_reads_Inr(4) [OF reads]])
  have dh: "distinct (map e_wallet highEntries)"
    by (rule getDailyLeaderboard_distinct [OF wallets cycle_reads_Inr(5) [OF reads]])
  define winners where
    "winners = new_Set (map fst (rewardTotalMap_of sumTotalScores (totalPool * (70 / 100)) totalEntries) @
                        map fst (rewardHighMap_of (totalPool * (25 / 100)) highEntries))"
  show ?thesis
    unfolding reads sum.case prod.case Let_def
    apply (rule exI [of _ winners])
    apply (intro conjI)
    subgoal by (simp add: winners_def distinct_new_Set)
    subgoal unfolding winners_def by (rule set_cycle_wallets [OF dt dh])
    subgoal
      unfolding runPayoutCycle_run(1) [OF reads] audit_lines_def entry_score_def
        reward_of_explicit [OF dt dh] winners_def
      by (rule refl)
    subgoal
      unfolding runPayoutCycle_run(2) [OF reads] audit_lines_def entry_score_def
        reward_of_explicit [OF dt dh] winners_def
      by (rule refl)
    subgoal by (rule runPayoutCycle_reset [OF reads])
    done
qed

text \<open>
  The amended claim on the scenario of the specification with a contract call that
  throws: the three lines are handed over before the call, rewards of 1.925 and 0.925
  go to the call, the error line follows, every write succeeds, the daily rows are
  zeroed and the clock advances.
\<close>

theorem cycle_hands_lines_over_then_settles_once_witness:
  "distinct (map walletDaily (daily_player_stats (db scenario_server))) \<and>
   cycle_reads settlement_fails (db scenario_server) =
     Inr (3, 30, 30,
       [\<lparr>e_rank = 1, e_wallet = ''0xB'', e_score = 20, e_gamesPlayed = 1, e_lastPlayed = 6500\<rparr>,
        \<lparr>e_rank = 2, e_wallet = ''0xA'', e_score = 10, e_gamesPlayed = 1, e_lastPlayed = 5500\<rparr>],
       [\<lparr>e_rank = 1, e_wallet = ''0xB'', e_score = 20, e_gamesPlayed = 1, e_lastPlayed = 6500\<rparr>,
        \<lparr>e_rank = 2, e_wallet = ''0xA'', e_score = 10, e_gamesPlayed = 1, e_lastPlayed = 5500\<rparr>]) \<and>
   effects (runPayoutCycle production settlement_fails scenario_server) =
     [AppendPayoutLog (RewardEntry ''0xB'' 20 20 1925000 86401000),
      AppendPayoutLog (RewardEntry ''0xA'' 10 10 925000 86401000),
      AppendPayoutLog (TreasuryEntry 150000 86401000),
      EndCycleCall [''0xB'', ''0xA''] [1925000, 925000],
      AppendPayoutLog (OnchainEndCycleError ''execution reverted'' 86401000)] \<and>
   payouts_log (runPayoutCycle production settlement_fails scenario_server) =
     {#RewardEntry ''0xB'' 20 20 1925000 86401000,
       RewardEntry ''0xA'' 10 10 925000 86401000,
       TreasuryEntry 150000 86401000,
       OnchainEndCycleError ''execution reverted'' 86401000#} \<and>
   daily_player_stats (db (runPayoutCycle production settlement_fails scenario_server)) =
     [\<lparr>walletDaily = ''0xA'', totalScoreDaily = 0, highScoreDaily = 0, gamesPlayedDaily = 0,
       lastPlayedDaily = 5500\<rparr>,
      \<lparr>walletDaily = ''0xB'', totalScoreDaily = 0, highScoreDaily = 0, gamesPlayedDaily = 0,
       lastPlayedDaily = 6500\<rparr>] \<and>
   player_stats (db (runPayoutCycle production settlement_fails scenario_server)) =
     player_stats (db scenario_server) \<and>
   lastPayoutAt (runPayoutCycle production settlement_fails scenario_server) = 86401000 \<and>
   nextPayoutAt (runPayoutCycle production settlement_fails scenario_server) = 172801000"
proof -
  have d: "distinct (map walletDaily (daily_player_stats (db scenario_server)))"
    by (simp add: scenario_server_def scenario_db_def)
  note run = cycle_hands_lines_over_then_settles_once [OF d,
      where env = settlement_fails and cfg = production, unfolded scenario_server_reads(1) sum.case prod.case Let_def]
  have ok: "reset_ok settlement_fails" "cycle_now settlement_fails = 86401000"
    by (simp_all add: settlement_fails_def settled_cycle_def)
  from run have clock:
    "player_stats (db (runPayoutCycle production settlement_fails scenario_server)) =
       player_stats (db scenario_server) \<and>
     lastPayoutAt (runPayoutCycle production settlement_fails scenario_server) = 86401000 \<and>
     nextPayoutAt (runPayoutCycle production settlement_fails scenario_server) = 172801000"
    by (elim exE conjE) (simp add: ok)
  with d scenario_server_reads(1) scenario_failed_settlement show ?thesis by simp
qed

text \<open>
  Claim C9 as stated fails where the file system refuses the writes: in the same
  scenario the three lines are handed over, every write fails, the contract call is made
  and mined, and the journal is as empty after the cycle as it was before.
\<close>

theorem unwritten_lines_settled_payout_counterexample:
  "effects (runPayoutCycle production writes_fail scenario_server) =
     [AppendPayoutLog (RewardEntry ''0xB'' 20 20 1925000 86401000),
      AppendPayoutLog (RewardEntry ''0xA'' 10 10 925000 86401000),
      AppendPayoutLog (TreasuryEntry 150000 86401000),
      EndCycleCall [''0xB'', ''0xA''] [1925000, 925000],
      AppendPayoutLog (OnchainEndCycle ''0xfeed'' (Some ''https://sepolia.basescan.org/tx/0xfeed'')
                         (Some 1) 86401000)] \<and>
   settles writes_fail = TxMined ''0xfeed'' (Some 1) \<and>
   payouts_log scenario_server = {#} \<and>
   payouts_log (runPayoutCycle production writes_fail scenario_server) = {#}"
  by (simp add: scenario_failed_writes)
    (simp add: writes_fail_def settled_cycle_def scenario_server_def empty_server_def)

section \<open>Overlapping cycles: the timer does not look at the flag\<close>

text \<open>
  With admin requests alone the flag does its work: from an idle scheduler no two cycles
  are ever in progress.
\<close>

lemma trigger_step_guarded:
  "guarded s \<Longrightarrow> t \<noteq> TimerFires \<Longrightarrow> guarded (fst (trigger_step s t))"
  by (cases t) (auto simp: guarded_def)

lemma admin_requests_never_overlap:
  "guarded s \<Longrightarrow> TimerFires \<notin> set ts \<Longrightarrow> guarded (fst (trigger_run s ts))"
proof (induction ts arbitrary: s)
  case Nil
  then show ?case by simp
next
  case (Cons t ts)
  have "guarded (fst (trigger_step s t))"
    using Cons.prems by (intro trigger_step_guarded) auto
  then have "guarded (fst (trigger_run (fst (trigger_step s t)) ts))"
    using Cons.prems by (intro Cons.IH) auto
  then show ?case by (simp add: case_prod_unfold)
qed

text \<open>
  Claim C8 fails on the code. A second admin request is rejected while the first one's
  cycle is in progress, but the timer starts its cycle whatever the flag says, and a cycle
  the timer started does not set the flag: after an admin request and a timer tick, in
  either order, two cycles are in progress.
\<close>

theorem timer_ignores_running_flag:
  "trigger_run idle [AdminRequest, TimerFires] =
     (\<lparr>payoutRunning = True, in_progress = [Admin, Timer]\<rparr>, [Started, Started]) \<and>
   trigger_run idle [TimerFires, AdminRequest] =
     (\<lparr>payoutRunning = True, in_progress = [Timer, Admin]\<rparr>, [Started, Started]) \<and>
   trigger_run idle [TimerFires, TimerFires] =
     (\<lparr>payoutRunning = False, in_progress = [Timer, Timer]\<rparr>, [Started, Started]) \<and>
   trigger_run idle [AdminRequest, AdminRequest] =
     (\<lparr>payoutRunning = True, in_progress = [Admin]\<rparr>,
      [Started, Rejected (ErrorResponse 409 ''Payout already running'')])"
  by (simp add: idle_def)

end
